theory Spec2Isabelle
  imports Complex_Main
begin

section \<open>The 2D waypoint-following controller (controller2d.py)\<close>

text \<open>
  A shallow embedding of class \<open>Controller2D\<close>, in two readings. The first reads the
  Python floats as real numbers and the arithmetic as exact: rounding, NaN, infinities
  and signed zeros are outside it, and what is proved there is about finite inputs and
  does not depend on the last digit of a result (ranges, bounds, the order of the calls,
  the integer index of the lookahead waypoint, the persistent state). The second, in the
  part on floating-point arithmetic, is the same program text with the rounded
  operations as parameters; what depends on which side of a comparison a rounded value
  falls (the deadbands of the steering pipeline, the nearest waypoint) is proved there.
  Attribute names drop the leading underscore of the source.
\<close>

subsection \<open>Errors\<close>

text \<open>
  The exceptions the method bodies can raise: indexing a sequence out of range, and
  reading an attribute that does not exist.
\<close>

datatype py_error = IndexError | AttributeError

subsection \<open>Data\<close>

text \<open>A waypoint is the sequence \<open>[x, y, v]\<close>; the source reads it by index 0, 1 and 2.\<close>

type_synonym waypoint = "real \<times> real \<times> real"

definition wp_x :: "waypoint \<Rightarrow> real" where
  "wp_x w = fst w"

definition wp_y :: "waypoint \<Rightarrow> real" where
  "wp_y w = fst (snd w)"

definition wp_v :: "waypoint \<Rightarrow> real" where
  "wp_v w = snd (snd w)"

text \<open>
  Modelled from the spec: class \<open>CUtils\<close> of module \<open>cutils\<close>, which is not among the
  source files. The spec describes it as storage for values that survive across ticks,
  with \<open>create_var\<close> a create-if-absent operation that never resets an existing value.
  The object starts with no attribute; the three attributes the controller creates are
  the fields below, \<open>None\<close> while absent. The step counter is created as 0 and only ever
  incremented, so it is a natural number.
\<close>

record CUtils =
  v_previous :: "real option"
  v_diff_previous :: "real option"
  step :: "nat option"

definition CUtils_init :: CUtils where
  "CUtils_init = \<lparr>v_previous = None, v_diff_previous = None, step = None\<rparr>"

text \<open>Modelled from the spec: \<open>create_var\<close>, one instance for each attribute name used.\<close>

definition create_var_v_previous :: "real \<Rightarrow> CUtils \<Rightarrow> CUtils" where
  "create_var_v_previous d u =
     (case v_previous u of None \<Rightarrow> u\<lparr>v_previous := Some d\<rparr> | Some _ \<Rightarrow> u)"

definition create_var_v_diff_previous :: "real \<Rightarrow> CUtils \<Rightarrow> CUtils" where
  "create_var_v_diff_previous d u =
     (case v_diff_previous u of None \<Rightarrow> u\<lparr>v_diff_previous := Some d\<rparr> | Some _ \<Rightarrow> u)"

definition create_var_step :: "nat \<Rightarrow> CUtils \<Rightarrow> CUtils" where
  "create_var_step d u =
     (case step u of None \<Rightarrow> u\<lparr>step := Some d\<rparr> | Some _ \<Rightarrow> u)"

text \<open>
  The controller object. The attributes \<open>_conv_rad_to_steer\<close>, \<open>_pi\<close> and \<open>_2pi\<close> are
  assigned once by the constructor and never again; the first is the constant
  \<open>conv_rad_to_steer\<close> below, the other two are never read.
\<close>

record Controller2D =
  vars :: CUtils
  current_x :: real
  current_y :: real
  current_yaw :: real
  current_speed :: real
  desired_speed :: real
  current_frame :: int
  current_timestamp :: real
  start_control_loop :: bool
  set_throttle_val :: real
  set_brake_val :: real
  set_steer_val :: real
  waypoints :: "waypoint list"

definition conv_rad_to_steer :: real where
  "conv_rad_to_steer = 180 / 70 / pi"

definition Controller2D_init :: "waypoint list \<Rightarrow> Controller2D" where
  "Controller2D_init wps =
     \<lparr>vars = CUtils_init,
      current_x = 0, current_y = 0, current_yaw = 0, current_speed = 0,
      desired_speed = 0, current_frame = 0, current_timestamp = 0,
      start_control_loop = False,
      set_throttle_val = 0, set_brake_val = 0, set_steer_val = 0,
      waypoints = wps\<rparr>"

subsection \<open>Feeding the controller\<close>

definition update_values ::
  "real \<Rightarrow> real \<Rightarrow> real \<Rightarrow> real \<Rightarrow> real \<Rightarrow> int \<Rightarrow> Controller2D \<Rightarrow> Controller2D" where
  "update_values x y yaw speed timestamp frame c =
     (let c1 = c\<lparr>current_x := x, current_y := y, current_yaw := yaw,
                 current_speed := speed, current_timestamp := timestamp,
                 current_frame := frame\<rparr>
      in if current_frame c1 \<noteq> 0 then c1\<lparr>start_control_loop := True\<rparr> else c1)"

definition update_waypoints :: "waypoint list \<Rightarrow> Controller2D \<Rightarrow> Controller2D" where
  "update_waypoints new_waypoints c = c\<lparr>waypoints := new_waypoints\<rparr>"

definition get_commands :: "Controller2D \<Rightarrow> real \<times> real \<times> real" where
  "get_commands c = (set_throttle_val c, set_steer_val c, set_brake_val c)"

subsection \<open>Setters\<close>

text \<open>\<open>np.fmax (np.fmin v hi) lo\<close> on finite numbers.\<close>

definition fmax_fmin :: "real \<Rightarrow> real \<Rightarrow> real \<Rightarrow> real" where
  "fmax_fmin v hi lo = max (min v hi) lo"

definition set_throttle :: "real \<Rightarrow> Controller2D \<Rightarrow> Controller2D" where
  "set_throttle input_throttle c =
     c\<lparr>set_throttle_val := fmax_fmin input_throttle 1 0\<rparr>"

definition set_steer :: "real \<Rightarrow> Controller2D \<Rightarrow> Controller2D" where
  "set_steer input_steer_in_rad c =
     (let input_steer = conv_rad_to_steer * input_steer_in_rad
      in c\<lparr>set_steer_val := fmax_fmin input_steer 1 (- 1)\<rparr>)"

definition set_brake :: "real \<Rightarrow> Controller2D \<Rightarrow> Controller2D" where
  "set_brake input_brake c =
     c\<lparr>set_brake_val := fmax_fmin input_brake 1 0\<rparr>"

subsection \<open>Desired speed: the nearest waypoint\<close>

text \<open>\<open>np.linalg.norm\<close> of a vector of two components.\<close>

definition linalg_norm2 :: "real \<Rightarrow> real \<Rightarrow> real" where
  "linalg_norm2 a b = sqrt (a * a + b * b)"

text \<open>
  The running minimum starts as \<open>float("inf")\<close>, here \<open>None\<close>: every finite distance is
  below it.
\<close>

fun lt_min_dist :: "real \<Rightarrow> real option \<Rightarrow> bool" where
  "lt_min_dist d None = True"
| "lt_min_dist d (Some m) = (d < m)"

text \<open>
  The \<open>for i in range(len(self._waypoints))\<close> loop: the waypoints still to visit, the
  index \<open>i\<close> of the first of them, and the pair \<open>(min_idx, min_dist)\<close>.
\<close>

fun nearest_scan ::
  "real \<Rightarrow> real \<Rightarrow> waypoint list \<Rightarrow> nat \<Rightarrow> nat \<times> real option \<Rightarrow> nat \<times> real option" where
  "nearest_scan cx cy [] i acc = acc"
| "nearest_scan cx cy (w # ws) i (min_idx, min_dist) =
     (let dist = linalg_norm2 (wp_x w - cx) (wp_y w - cy)
      in if lt_min_dist dist min_dist
         then nearest_scan cx cy ws (Suc i) (i, Some dist)
         else nearest_scan cx cy ws (Suc i) (min_idx, min_dist))"

text \<open>
  After the loop, \<open>self._waypoints[min_idx]\<close> is in range where it is read;
  \<open>self._waypoints[-1]\<close> raises \<open>IndexError\<close> on an empty sequence, before
  \<open>_desired_speed\<close> is assigned.
\<close>

definition update_desired_speed :: "Controller2D \<Rightarrow> py_error + Controller2D" where
  "update_desired_speed c =
     (let wps = waypoints c;
          min_idx = fst (nearest_scan (current_x c) (current_y c) wps 0 (0, None))
      in if int min_idx < int (length wps) - 1
         then Inr (c\<lparr>desired_speed := wp_v (wps ! min_idx)\<rparr>)
         else (case wps of
                 [] \<Rightarrow> Inl IndexError
               | _ # _ \<Rightarrow> Inr (c\<lparr>desired_speed := wp_v (last wps)\<rparr>)))"

subsection \<open>Longitudinal controller\<close>

definition longitudinal_throttle :: "real \<Rightarrow> real \<Rightarrow> real \<Rightarrow> real \<Rightarrow> real" where
  "longitudinal_throttle v_desired v v_prev v_diff_prev =
     (let pGain = 0.6;
          iGain = 0.01;
          dGain = 1;
          normalizeFactor = 16.25 / 2 / 5;
          throttle = pGain * (v_desired - v) + dGain * (v - v_prev) + iGain * v_diff_prev;
          throttlePercent = throttle / normalizeFactor
      in if throttlePercent > 1 then 1
         else if throttlePercent < 0 then 0
         else throttlePercent)"

subsection \<open>Lateral controller\<close>

text \<open>
  \<open>int(self.vars.step / 3)\<close> for a step counter that is never negative is the quotient
  \<open>step div 3\<close>. The comparison with \<open>len(waypoints) - 1\<close> is between integers, and
  \<open>waypoints[len(waypoints) - 1]\<close> raises \<open>IndexError\<close> on an empty sequence.
\<close>

definition lookahead_waypoint :: "nat \<Rightarrow> waypoint list \<Rightarrow> py_error + waypoint" where
  "lookahead_waypoint st wps =
     (if int (st div 3) < int (length wps) - 1
      then Inr (wps ! (st div 3))
      else (case wps of [] \<Rightarrow> Inl IndexError | _ # _ \<Rightarrow> Inr (last wps)))"

text \<open>
  \<open>math.atan2 y x\<close> on finite arguments: the angle of the point \<open>(x, y)\<close> in
  \<open>(-pi, pi]\<close>, and 0 at the origin.
\<close>

definition atan2 :: "real \<Rightarrow> real \<Rightarrow> real" where
  "atan2 y x =
     (if 0 < x then arctan (y / x)
      else if x < 0 then (if 0 \<le> y then arctan (y / x) + pi else arctan (y / x) - pi)
      else if 0 < y then pi / 2
      else if y < 0 then - pi / 2
      else 0)"

definition lateral_steer ::
  "real \<Rightarrow> real \<Rightarrow> real \<Rightarrow> real \<Rightarrow> waypoint \<Rightarrow> nat \<Rightarrow> real" where
  "lateral_steer x y yaw v_desired waypoint st =
     (let processed_yaw0 = - yaw - pi / 2;
          processed_yaw = (if \<bar>processed_yaw0\<bar> < 0.05 then 0 else processed_yaw0);
          rearAxialX = x - cos processed_yaw * 1.5;
          rearAxialY = y - sin processed_yaw * 1.5;
          lookAheadX = wp_x waypoint;
          lookAheadY = wp_y waypoint;
          L = 3;
          kdd = 0.8;
          ld = linalg_norm2 (lookAheadX - rearAxialX) (lookAheadY - rearAxialY);
          alpha = atan2 (lookAheadX - x) (lookAheadY - y) - processed_yaw;
          velocity = (if v_desired < 10 then 10 else v_desired);
          steer_angle0 = arctan (2 * L * sin alpha / (kdd * velocity));
          steer_angle1 = (if st < 100 then 0 else steer_angle0);
          steer_angle2 = (if steer_angle1 > 0.3 then 0.3
                          else if steer_angle1 < - 0.3 then - 0.3
                          else steer_angle1)
      in if \<bar>steer_angle2\<bar> < 0.05 then 0 else steer_angle2)"

subsection \<open>The control step\<close>

text \<open>
  \<open>update_controls\<close>: the desired speed first (the only place that can raise), then the
  three \<open>create_var\<close> calls, the controller block when the control loop has started, and
  the stores of the old values. Reading an attribute of \<open>vars\<close> that is absent raises
  \<open>AttributeError\<close>; after the three \<open>create_var\<close> calls none is absent, and lemma
  \<open>update_controls_raises\<close> below shows that this exception never occurs.
\<close>

definition update_controls :: "Controller2D \<Rightarrow> py_error + Controller2D" where
  "update_controls c =
     (let x = current_x c;
          y = current_y c;
          yaw = current_yaw c;
          v = current_speed c
      in case update_desired_speed c of
           Inl e \<Rightarrow> Inl e
         | Inr c1 \<Rightarrow>
            (let v_desired = desired_speed c1;
                 wps = waypoints c1;
                 c2 = c1\<lparr>vars := create_var_step 0
                         (create_var_v_diff_previous 0
                           (create_var_v_previous 0 (vars c1)))\<rparr>
             in case (v_previous (vars c2), v_diff_previous (vars c2), step (vars c2)) of
                  (Some v_prev, Some v_diff_prev, Some st) \<Rightarrow>
                    (let r = (if start_control_loop c2
                              then (case lookahead_waypoint st wps of
                                      Inl e \<Rightarrow> Inl e
                                    | Inr waypoint \<Rightarrow>
                                       (let throttle_output =
                                              longitudinal_throttle v_desired v v_prev v_diff_prev;
                                            brake_output = 0;
                                            steer_output =
                                              lateral_steer x y yaw v_desired waypoint st
                                        in Inr (set_brake brake_output
                                                 (set_steer steer_output
                                                   (set_throttle throttle_output c2)))))
                              else Inr c2)
                     in case r of
                          Inl e \<Rightarrow> Inl e
                        | Inr c3 \<Rightarrow>
                            Inr (c3\<lparr>vars := (vars c3)
                                   \<lparr>v_previous := Some v,
                                    v_diff_previous := Some (v_desired - v + v_diff_prev),
                                    step := Some (st + 1)\<rparr>\<rparr>))
                | _ \<Rightarrow> Inl AttributeError))"

subsection \<open>Call sequences\<close>

text \<open>
  The calls a harness makes on a controller object. An exception ends the sequence.
\<close>

datatype call =
    UpdateValues real real real real real int
  | UpdateWaypoints "waypoint list"
  | UpdateControls
  | SetThrottle real
  | SetSteer real
  | SetBrake real

fun exec_call :: "call \<Rightarrow> Controller2D \<Rightarrow> py_error + Controller2D" where
  "exec_call (UpdateValues x y yaw speed timestamp frame) c =
     Inr (update_values x y yaw speed timestamp frame c)"
| "exec_call (UpdateWaypoints wps) c = Inr (update_waypoints wps c)"
| "exec_call UpdateControls c = update_controls c"
| "exec_call (SetThrottle t) c = Inr (set_throttle t c)"
| "exec_call (SetSteer s) c = Inr (set_steer s c)"
| "exec_call (SetBrake b) c = Inr (set_brake b c)"

fun run :: "call list \<Rightarrow> Controller2D \<Rightarrow> py_error + Controller2D" where
  "run [] c = Inr c"
| "run (k # ks) c = (case exec_call k c of Inl e \<Rightarrow> Inl e | Inr c1 \<Rightarrow> run ks c1)"

text \<open>
  What a harness observes: the result of \<open>get_commands\<close> after each call that returns,
  and the exception that ends the sequence.
\<close>

fun trace :: "call list \<Rightarrow> Controller2D \<Rightarrow> (py_error + real \<times> real \<times> real) list" where
  "trace [] c = []"
| "trace (k # ks) c =
     (case exec_call k c of
        Inl e \<Rightarrow> [Inl e]
      | Inr c1 \<Rightarrow> Inr (get_commands c1) # trace ks c1)"

section \<open>The vocabulary of the specification\<close>

subsection \<open>PersistentState\<close>

text \<open>
  The three persistent values as the specification names them, with their defaults
  (0.0, 0.0 and 0) while the attribute has not been created yet.
\<close>

definition previous_speed :: "CUtils \<Rightarrow> real" where
  "previous_speed u = (case v_previous u of None \<Rightarrow> 0 | Some a \<Rightarrow> a)"

definition accumulated_speed_error :: "CUtils \<Rightarrow> real" where
  "accumulated_speed_error u = (case v_diff_previous u of None \<Rightarrow> 0 | Some a \<Rightarrow> a)"

definition step_count :: "CUtils \<Rightarrow> nat" where
  "step_count u = (case step u of None \<Rightarrow> 0 | Some n \<Rightarrow> n)"

text \<open>
  The advance of PersistentState at the end of a tick with current speed \<open>v\<close> and desired
  speed \<open>v_d\<close>.
\<close>

definition advance :: "real \<Rightarrow> real \<Rightarrow> CUtils \<Rightarrow> CUtils" where
  "advance v v_d u =
     u\<lparr>v_previous := Some v,
       v_diff_previous := Some (accumulated_speed_error u + (v_d - v)),
       step := Some (step_count u + 1)\<rparr>"

subsection \<open>ControlOutput\<close>

definition commands_in_range :: "Controller2D \<Rightarrow> bool" where
  "commands_in_range c \<longleftrightarrow>
     0 \<le> set_throttle_val c \<and> set_throttle_val c \<le> 1 \<and>
     0 \<le> set_brake_val c \<and> set_brake_val c \<le> 1 \<and>
     - 1 \<le> set_steer_val c \<and> set_steer_val c \<le> 1"

definition clamp :: "real \<Rightarrow> real \<Rightarrow> real \<Rightarrow> real" where
  "clamp lo hi v = (if v < lo then lo else if hi < v then hi else v)"

subsection \<open>Cold and Warm\<close>


fun is_update_controls :: "call \<Rightarrow> bool" where
  "is_update_controls UpdateControls = True"
| "is_update_controls _ = False"

subsection \<open>Nearest waypoint\<close>

definition euclidean_distance :: "real \<Rightarrow> real \<Rightarrow> waypoint \<Rightarrow> real" where
  "euclidean_distance cx cy w = sqrt ((wp_x w - cx)\<^sup>2 + (wp_y w - cy)\<^sup>2)"

text \<open>
  Index \<open>i\<close> is the earliest index of \<open>wps\<close> at minimum distance from \<open>(cx, cy)\<close>: no
  waypoint is closer, and every earlier one is strictly farther.
\<close>

definition first_nearest :: "real \<Rightarrow> real \<Rightarrow> waypoint list \<Rightarrow> nat \<Rightarrow> bool" where
  "first_nearest cx cy wps i \<longleftrightarrow>
     i < length wps \<and>
     (\<forall>j < length wps.
        euclidean_distance cx cy (wps ! i) \<le> euclidean_distance cx cy (wps ! j)) \<and>
     (\<forall>j < i. euclidean_distance cx cy (wps ! i) < euclidean_distance cx cy (wps ! j))"

text \<open>The index the scan of \<open>update_desired_speed\<close> ends with.\<close>

definition nearest_idx :: "Controller2D \<Rightarrow> nat" where
  "nearest_idx c = fst (nearest_scan (current_x c) (current_y c) (waypoints c) 0 (0, None))"

text \<open>
  The loop invariant of the scan before index \<open>i\<close>: nothing seen yet, or the pair holds
  the earliest nearest index among the first \<open>i\<close> waypoints and its distance.
\<close>

definition scan_inv ::
  "real \<Rightarrow> real \<Rightarrow> waypoint list \<Rightarrow> nat \<Rightarrow> nat \<times> real option \<Rightarrow> bool" where
  "scan_inv cx cy wps i acc \<longleftrightarrow>
     (i = 0 \<and> snd acc = None) \<or>
     (fst acc < i \<and> snd acc = Some (euclidean_distance cx cy (wps ! fst acc)) \<and>
      (\<forall>j < i. euclidean_distance cx cy (wps ! fst acc) \<le> euclidean_distance cx cy (wps ! j)) \<and>
      (\<forall>j < fst acc.
         euclidean_distance cx cy (wps ! fst acc) < euclidean_distance cx cy (wps ! j)))"

subsection \<open>The two control laws, in the specification's words\<close>


text \<open>
  Lateral: the seven steps of the pure-pursuit computation, for the lookahead point
  \<open>(x_L, y_L)\<close> and the step counter \<open>st\<close>.
\<close>

definition spec_processed_yaw :: "real \<Rightarrow> real" where
  "spec_processed_yaw yaw = (if \<bar>- yaw - pi / 2\<bar> < 0.05 then 0 else - yaw - pi / 2)"

definition spec_alpha :: "real \<Rightarrow> real \<Rightarrow> real \<Rightarrow> real \<Rightarrow> real \<Rightarrow> real" where
  "spec_alpha x y yaw x_L y_L = atan2 (x_L - x) (y_L - y) - spec_processed_yaw yaw"

definition spec_steer_angle ::
  "real \<Rightarrow> real \<Rightarrow> real \<Rightarrow> real \<Rightarrow> real \<Rightarrow> real \<Rightarrow> nat \<Rightarrow> real" where
  "spec_steer_angle x y yaw v_d x_L y_L st =
     (let velocity = max v_d 10.0;
          steer_angle = arctan (2 * 3.0 * sin (spec_alpha x y yaw x_L y_L) / (0.8 * velocity));
          suppressed = (if st < 100 then 0 else steer_angle);
          clamped = clamp (- 0.3) 0.3 suppressed
      in if \<bar>clamped\<bar> < 0.05 then 0 else clamped)"

text \<open>The index of the lookahead waypoint: \<open>floor (step / 3)\<close>, at most the last index.\<close>

definition spec_lookahead_index :: "nat \<Rightarrow> waypoint list \<Rightarrow> nat" where
  "spec_lookahead_index st wps = min (nat \<lfloor>real st / 3\<rfloor>) (length wps - 1)"

subsection \<open>Timestamps\<close>

text \<open>The same call with the timestamp argument of \<open>update_values\<close> replaced by 0.\<close>

fun erase_timestamp :: "call \<Rightarrow> call" where
  "erase_timestamp (UpdateValues x y yaw speed timestamp frame) =
     UpdateValues x y yaw speed 0 frame"
| "erase_timestamp k = k"

subsection \<open>Concrete inputs\<close>

text \<open>
  The path of the specification's nearest-waypoint example, and a controller on it after
  one \<open>update_values\<close> at position (9, 0) with speed 2 and frame index 1.
\<close>

definition demo_path :: "waypoint list" where
  "demo_path = [(0, 0, 5), (10, 0, 8), (20, 0, 3)]"

definition demo_warm :: Controller2D where
  "demo_warm = update_values 9 0 0 2 0.5 1 (Controller2D_init demo_path)"

text \<open>
  The same controller fed frame index 0, so that it stays Cold.
\<close>

definition demo_cold :: Controller2D where
  "demo_cold = update_values 9 0 0 2 0.5 0 (Controller2D_init demo_path)"

text \<open>
  A Warm controller past the startup suppression: heading \<open>-pi/2\<close>, step counter 300.
\<close>

definition demo_steer :: Controller2D where
  "demo_steer = demo_warm\<lparr>current_yaw := - (pi / 2),
       vars := \<lparr>v_previous = Some 2, v_diff_previous = Some 6, step = Some 300\<rparr>\<rparr>"

text \<open>
  A path on which the second and third waypoint are both at distance 1 from the position
  (9, 0), and a controller on it at that position.
\<close>

definition tie_path :: "waypoint list" where
  "tie_path = [(0, 0, 5), (10, 0, 8), (8, 0, 3)]"

definition demo_tie :: Controller2D where
  "demo_tie = update_values 9 0 0 2 0.5 1 (Controller2D_init tie_path)"

section \<open>The program in floating-point arithmetic\<close>

text \<open>
  The definitions so far read the program in exact real arithmetic. The program itself
  computes in IEEE doubles, and at a comparison a rounded value can fall on the other
  side: two distances that differ can round to the same double, and
  \<open>-yaw - np.pi / 2\<close> can round across the deadband limit. This part is the same
  program with its floating-point operations as parameters.

  A finite double is the real number it denotes. Comparison, negation, absolute value,
  \<open>np.fmin\<close> and \<open>np.fmax\<close> of doubles are exact; every other operation returns
  the double the machine computes. The record holds those operations: \<open>flit\<close> gives the
  double a decimal literal of the source denotes (the literals written as plain numbers
  below are integers or dyadic, hence exact), \<open>np_pi\<close> is the constant \<open>np.pi\<close>, and
  \<open>fnorm a b\<close> is \<open>np.linalg.norm\<close> of the vector \<open>[a, b]\<close>, \<open>None\<close> when
  the result overflows to \<open>inf\<close>. Inputs are finite numbers; NaN, the sign of a zero
  and overflow of an operation other than the norm are not represented.
\<close>

record flops =
  flit :: "real \<Rightarrow> real"
  np_pi :: real
  fadd :: "real \<Rightarrow> real \<Rightarrow> real"
  fsub :: "real \<Rightarrow> real \<Rightarrow> real"
  fmul :: "real \<Rightarrow> real \<Rightarrow> real"
  fdiv :: "real \<Rightarrow> real \<Rightarrow> real"
  fsin :: "real \<Rightarrow> real"
  fcos :: "real \<Rightarrow> real"
  farctan :: "real \<Rightarrow> real"
  fatan2 :: "real \<Rightarrow> real \<Rightarrow> real"
  fnorm :: "real \<Rightarrow> real \<Rightarrow> real option"

text \<open>
  Exact arithmetic is one choice of the operations; with it the definitions of this part
  are those of the first part (lemma \<open>update_controls_exact\<close>).
\<close>

definition exact_ops :: flops where
  "exact_ops =
     \<lparr>flit = (\<lambda>x. x), np_pi = pi,
      fadd = (\<lambda>a b. a + b), fsub = (\<lambda>a b. a - b),
      fmul = (\<lambda>a b. a * b), fdiv = (\<lambda>a b. a / b),
      fsin = sin, fcos = cos, farctan = arctan, fatan2 = atan2,
      fnorm = (\<lambda>a b. Some (linalg_norm2 a b))\<rparr>"

text \<open>
  \<open>a < b\<close> on distances, \<open>None\<close> being \<open>inf\<close>: nothing is above \<open>inf\<close>, and
  \<open>inf < inf\<close> is false.
\<close>

fun fl_less :: "real option \<Rightarrow> real option \<Rightarrow> bool" where
  "fl_less (Some a) (Some b) = (a < b)"
| "fl_less (Some a) None = True"
| "fl_less None b = False"

text \<open>
  \<open>update_desired_speed\<close>, lines 41 to 56, with the subtractions and the norm as the
  machine computes them.
\<close>

fun nearest_scan_fl ::
  "flops \<Rightarrow> real \<Rightarrow> real \<Rightarrow> waypoint list \<Rightarrow> nat \<Rightarrow> nat \<times> real option \<Rightarrow> nat \<times> real option" where
  "nearest_scan_fl ops cx cy [] i acc = acc"
| "nearest_scan_fl ops cx cy (w # ws) i (min_idx, min_dist) =
     (let dist = fnorm ops (fsub ops (wp_x w) cx) (fsub ops (wp_y w) cy)
      in if fl_less dist min_dist
         then nearest_scan_fl ops cx cy ws (Suc i) (i, dist)
         else nearest_scan_fl ops cx cy ws (Suc i) (min_idx, min_dist))"

definition update_desired_speed_fl :: "flops \<Rightarrow> Controller2D \<Rightarrow> py_error + Controller2D" where
  "update_desired_speed_fl ops c =
     (let wps = waypoints c;
          min_idx = fst (nearest_scan_fl ops (current_x c) (current_y c) wps 0 (0, None))
      in if int min_idx < int (length wps) - 1
         then Inr (c\<lparr>desired_speed := wp_v (wps ! min_idx)\<rparr>)
         else (case wps of
                 [] \<Rightarrow> Inl IndexError
               | _ # _ \<Rightarrow> Inr (c\<lparr>desired_speed := wp_v (last wps)\<rparr>)))"

text \<open>
  \<open>set_steer\<close>: the factor \<open>180.0 / 70.0 / np.pi\<close> of the constructor and the product
  are rounded; the clamp is exact.
\<close>

definition set_steer_fl :: "flops \<Rightarrow> real \<Rightarrow> Controller2D \<Rightarrow> Controller2D" where
  "set_steer_fl ops input_steer_in_rad c =
     (let conv = fdiv ops (fdiv ops 180 70) (np_pi ops);
          input_steer = fmul ops conv input_steer_in_rad
      in c\<lparr>set_steer_val := fmax_fmin input_steer 1 (- 1)\<rparr>)"

text \<open>
  The longitudinal and the lateral block of \<open>update_controls\<close>, operation by
  operation in the order Python evaluates them.
\<close>

definition longitudinal_throttle_fl :: "flops \<Rightarrow> real \<Rightarrow> real \<Rightarrow> real \<Rightarrow> real \<Rightarrow> real" where
  "longitudinal_throttle_fl ops v_desired v v_prev v_diff_prev =
     (let pGain = flit ops 0.6;
          iGain = flit ops 0.01;
          dGain = 1;
          normalizeFactor = fdiv ops (fdiv ops 16.25 2) 5;
          throttle = fadd ops
                       (fadd ops (fmul ops pGain (fsub ops v_desired v))
                                 (fmul ops dGain (fsub ops v v_prev)))
                       (fmul ops iGain v_diff_prev);
          throttlePercent = fdiv ops throttle normalizeFactor
      in if throttlePercent > 1 then 1
         else if throttlePercent < 0 then 0
         else throttlePercent)"

definition lateral_steer_fl ::
  "flops \<Rightarrow> real \<Rightarrow> real \<Rightarrow> real \<Rightarrow> real \<Rightarrow> waypoint \<Rightarrow> nat \<Rightarrow> real" where
  "lateral_steer_fl ops x y yaw v_desired waypoint st =
     (let processed_yaw0 = fsub ops (- yaw) (fdiv ops (np_pi ops) 2);
          processed_yaw = (if \<bar>processed_yaw0\<bar> < flit ops 0.05 then 0 else processed_yaw0);
          rearAxialX = fsub ops x (fmul ops (fcos ops processed_yaw) 1.5);
          rearAxialY = fsub ops y (fmul ops (fsin ops processed_yaw) 1.5);
          lookAheadX = wp_x waypoint;
          lookAheadY = wp_y waypoint;
          L = 3;
          kdd = flit ops 0.8;
          ld = fnorm ops (fsub ops lookAheadX rearAxialX) (fsub ops lookAheadY rearAxialY);
          alpha = fsub ops (fatan2 ops (fsub ops lookAheadX x) (fsub ops lookAheadY y))
                    processed_yaw;
          velocity = (if v_desired < 10 then 10 else v_desired);
          steer_angle0 = farctan ops
                           (fdiv ops (fmul ops (2 * L) (fsin ops alpha)) (fmul ops kdd velocity));
          steer_angle1 = (if st < 100 then 0 else steer_angle0);
          steer_angle2 = (if steer_angle1 > flit ops 0.3 then flit ops 0.3
                          else if steer_angle1 < - flit ops 0.3 then - flit ops 0.3
                          else steer_angle1)
      in if \<bar>steer_angle2\<bar> < flit ops 0.05 then 0 else steer_angle2)"

definition update_controls_fl :: "flops \<Rightarrow> Controller2D \<Rightarrow> py_error + Controller2D" where
  "update_controls_fl ops c =
     (let x = current_x c;
          y = current_y c;
          yaw = current_yaw c;
          v = current_speed c
      in case update_desired_speed_fl ops c of
           Inl e \<Rightarrow> Inl e
         | Inr c1 \<Rightarrow>
            (let v_desired = desired_speed c1;
                 wps = waypoints c1;
                 c2 = c1\<lparr>vars := create_var_step 0
                         (create_var_v_diff_previous 0
                           (create_var_v_previous 0 (vars c1)))\<rparr>
             in case (v_previous (vars c2), v_diff_previous (vars c2), step (vars c2)) of
                  (Some v_prev, Some v_diff_prev, Some st) \<Rightarrow>
                    (let r = (if start_control_loop c2
                              then (case lookahead_waypoint st wps of
                                      Inl e \<Rightarrow> Inl e
                                    | Inr waypoint \<Rightarrow>
                                       (let throttle_output =
                                              longitudinal_throttle_fl ops
                                                v_desired v v_prev v_diff_prev;
                                            brake_output = 0;
                                            steer_output =
                                              lateral_steer_fl ops x y yaw v_desired waypoint st
                                        in Inr (set_brake brake_output
                                                 (set_steer_fl ops steer_output
                                                   (set_throttle throttle_output c2)))))
                              else Inr c2)
                     in case r of
                          Inl e \<Rightarrow> Inl e
                        | Inr c3 \<Rightarrow>
                            Inr (c3\<lparr>vars := (vars c3)
                                   \<lparr>v_previous := Some v,
                                    v_diff_previous :=
                                      Some (fadd ops (fsub ops v_desired v) v_diff_prev),
                                    step := Some (st + 1)\<rparr>\<rparr>))
                | _ \<Rightarrow> Inl AttributeError))"

text \<open>
  The distance the scan computes for a waypoint, and the earliest index at which it is
  least.
\<close>

definition computed_distance :: "flops \<Rightarrow> real \<Rightarrow> real \<Rightarrow> waypoint \<Rightarrow> real option" where
  "computed_distance ops cx cy w = fnorm ops (fsub ops (wp_x w) cx) (fsub ops (wp_y w) cy)"

definition first_nearest_fl :: "flops \<Rightarrow> real \<Rightarrow> real \<Rightarrow> waypoint list \<Rightarrow> nat \<Rightarrow> bool" where
  "first_nearest_fl ops cx cy wps i \<longleftrightarrow>
     i < length wps \<and>
     (\<forall>j < length wps.
        \<not> fl_less (computed_distance ops cx cy (wps ! j)) (computed_distance ops cx cy (wps ! i))) \<and>
     (\<forall>j < i.
        fl_less (computed_distance ops cx cy (wps ! i)) (computed_distance ops cx cy (wps ! j)))"

definition nearest_idx_fl :: "flops \<Rightarrow> Controller2D \<Rightarrow> nat" where
  "nearest_idx_fl ops c =
     fst (nearest_scan_fl ops (current_x c) (current_y c) (waypoints c) 0 (0, None))"

definition scan_inv_fl ::
  "flops \<Rightarrow> real \<Rightarrow> real \<Rightarrow> waypoint list \<Rightarrow> nat \<Rightarrow> nat \<times> real option \<Rightarrow> bool" where
  "scan_inv_fl ops cx cy wps i acc \<longleftrightarrow>
     (i = 0 \<and> acc = (0, None)) \<or>
     (fst acc < i \<and> snd acc = computed_distance ops cx cy (wps ! fst acc) \<and>
      (\<forall>j < i. \<not> fl_less (computed_distance ops cx cy (wps ! j))
                            (computed_distance ops cx cy (wps ! fst acc))) \<and>
      (\<forall>j < fst acc. fl_less (computed_distance ops cx cy (wps ! fst acc))
                              (computed_distance ops cx cy (wps ! j))))"

text \<open>
  Rounding keeps the order of the distances of a path: the computed distance of one
  waypoint is below that of another exactly when its Euclidean distance is.
\<close>

definition order_preserved :: "flops \<Rightarrow> real \<Rightarrow> real \<Rightarrow> waypoint list \<Rightarrow> bool" where
  "order_preserved ops cx cy wps \<longleftrightarrow>
     (\<forall>j < length wps. \<forall>k < length wps.
        fl_less (computed_distance ops cx cy (wps ! j)) (computed_distance ops cx cy (wps ! k))
          \<longleftrightarrow> euclidean_distance cx cy (wps ! j) < euclidean_distance cx cy (wps ! k))"

text \<open>
  The advance of PersistentState with the sum \<open>v_desired - v + v_diff_previous\<close> as
  computed.
\<close>

definition advance_fl :: "flops \<Rightarrow> real \<Rightarrow> real \<Rightarrow> CUtils \<Rightarrow> CUtils" where
  "advance_fl ops v v_d u =
     u\<lparr>v_previous := Some v,
       v_diff_previous := Some (fadd ops (fsub ops v_d v) (accumulated_speed_error u)),
       step := Some (step_count u + 1)\<rparr>"

text \<open>
  The pipeline of the lateral controller in the words of the specification, computed
  with the program's operations: \<open>np.pi\<close> for pi, the doubles of the literals 0.05,
  0.8 and 0.3, and rounded subtraction, multiplication, division and library calls.
\<close>

definition spec_processed_yaw_fl :: "flops \<Rightarrow> real \<Rightarrow> real" where
  "spec_processed_yaw_fl ops yaw =
     (let p = fsub ops (- yaw) (fdiv ops (np_pi ops) 2)
      in if \<bar>p\<bar> < flit ops 0.05 then 0 else p)"

definition spec_alpha_fl :: "flops \<Rightarrow> real \<Rightarrow> real \<Rightarrow> real \<Rightarrow> real \<Rightarrow> real \<Rightarrow> real" where
  "spec_alpha_fl ops x y yaw x_L y_L =
     fsub ops (fatan2 ops (fsub ops x_L x) (fsub ops y_L y)) (spec_processed_yaw_fl ops yaw)"

definition spec_steer_angle_fl ::
  "flops \<Rightarrow> real \<Rightarrow> real \<Rightarrow> real \<Rightarrow> real \<Rightarrow> real \<Rightarrow> real \<Rightarrow> nat \<Rightarrow> real" where
  "spec_steer_angle_fl ops x y yaw v_d x_L y_L st =
     (let velocity = max v_d 10.0;
          steer_angle = farctan ops
                          (fdiv ops (fmul ops (2 * 3.0) (fsin ops (spec_alpha_fl ops x y yaw x_L y_L)))
                                    (fmul ops (flit ops 0.8) velocity));
          suppressed = (if st < 100 then 0 else steer_angle);
          clamped = clamp (- flit ops 0.3) (flit ops 0.3) suppressed
      in if \<bar>clamped\<bar> < flit ops 0.05 then 0 else clamped)"

text \<open>
  Rounding to the nearest double, ties to even, of a real in the normal range (neither
  overflow nor subnormal results): with \<open>2^e \<le> |x| < 2^(e+1)\<close> the result is the
  multiple of \<open>2^(e-52)\<close> nearest to \<open>x\<close>.
\<close>

definition round_half_even :: "real \<Rightarrow> int" where
  "round_half_even r =
     (let f = \<lfloor>r\<rfloor>
      in if r - of_int f < 1 / 2 then f
         else if 1 / 2 < r - of_int f then f + 1
         else if even f then f else f + 1)"

definition round_double :: "real \<Rightarrow> real" where
  "round_double x =
     (if x = 0 then 0
      else (let e = \<lfloor>log 2 \<bar>x\<bar>\<rfloor>;
                ulp = 2 powr (of_int e - 52)
            in of_int (round_half_even (x / ulp)) * ulp))"

text \<open>
  The constant \<open>np.pi\<close>, the double nearest to pi.
\<close>

definition double_pi :: real where
  "double_pi = 884279719003555 / 2 ^ 48"

text \<open>
  \<open>np.linalg.norm\<close> of a vector of two doubles is the square root of its dot product
  with itself: the two squares, their sum and the root are each rounded.
\<close>

definition double_norm :: "real \<Rightarrow> real \<Rightarrow> real option" where
  "double_norm a b =
     Some (round_double (sqrt (round_double (round_double (a * a) + round_double (b * b)))))"

text \<open>
  The operations with the literals, \<open>np.pi\<close>, the four arithmetic operations and
  the norm rounded as IEEE 754 prescribes. The library functions \<open>sin\<close>, \<open>cos\<close>,
  \<open>arctan\<close> and \<open>atan2\<close> stay exact here: the standard does not fix their last
  digit, and nothing below evaluates them in this record.
\<close>

definition rounded_ops :: flops where
  "rounded_ops =
     exact_ops\<lparr>flit := round_double, np_pi := double_pi,
       fadd := (\<lambda>a b. round_double (a + b)), fsub := (\<lambda>a b. round_double (a - b)),
       fmul := (\<lambda>a b. round_double (a * b)), fdiv := (\<lambda>a b. round_double (a / b)),
       fnorm := double_norm\<rparr>"

text \<open>
  A path of two waypoints whose distances from the origin, \<open>sqrt (25 + 2^-60)\<close> and 5,
  differ by less than the spacing of doubles near 5.
\<close>

definition close_path :: "waypoint list" where
  "close_path = [(5, 1 / 2 ^ 30, 5), (3, 4, 8)]"

text \<open>
  The heading \<open>-1.6207963267948966\<close>, which is the double of \<open>-(np.pi / 2) - 0.05\<close>.
\<close>

definition limit_yaw :: real where
  "limit_yaw = - (7299417733396965 / 2 ^ 52)"

section \<open>Symbolic execution of the methods\<close>

lemma nearest_scan_bound:
  "ws \<noteq> [] \<Longrightarrow> fst acc < i + length ws \<Longrightarrow> fst (nearest_scan cx cy ws i acc) < i + length ws"
proof (induction ws arbitrary: i acc)
  case Nil then show ?case by simp
next
  case (Cons w ws)
  obtain mi md where acc: "acc = (mi, md)" by (cases acc)
  show ?case
  proof (cases ws)
    case Nil
    with Cons.prems acc show ?thesis by (auto simp: Let_def)
  next
    case (Cons w' ws')
    with Cons.IH[of "(i, Some (linalg_norm2 (wp_x w - cx) (wp_y w - cy)))" "Suc i"]
         Cons.IH[of "(mi, md)" "Suc i"] Cons.prems acc
    show ?thesis by (auto simp: Let_def)
  qed
qed

lemma nearest_idx_lt: "waypoints c \<noteq> [] \<Longrightarrow> nearest_idx c < length (waypoints c)"
  using nearest_scan_bound[of "waypoints c" "(0, None)" 0] by (simp add: nearest_idx_def)

lemma update_desired_speed_empty:
  "waypoints c = [] \<Longrightarrow> update_desired_speed c = Inl IndexError"
  by (simp add: update_desired_speed_def)

lemma update_desired_speed_nonempty:
  assumes "waypoints c \<noteq> []"
  shows "update_desired_speed c = Inr (c\<lparr>desired_speed := wp_v (waypoints c ! nearest_idx c)\<rparr>)"
proof -
  have lt: "nearest_idx c < length (waypoints c)" using assms by (rule nearest_idx_lt)
  show ?thesis
  proof (cases "int (nearest_idx c) < int (length (waypoints c)) - 1")
    case True
    then show ?thesis by (simp add: update_desired_speed_def nearest_idx_def Let_def)
  next
    case False
    with lt have "nearest_idx c = length (waypoints c) - 1" by linarith
    with False assms show ?thesis
      by (auto simp: update_desired_speed_def nearest_idx_def last_conv_nth Let_def split: list.splits)
  qed
qed

lemma lookahead_waypoint_nonempty:
  assumes "wps \<noteq> []"
  shows "lookahead_waypoint st wps = Inr (wps ! min (st div 3) (length wps - 1))"
proof (cases "int (st div 3) < int (length wps) - 1")
  case True
  then have "min (st div 3) (length wps - 1) = st div 3" by linarith
  with True show ?thesis by (simp add: lookahead_waypoint_def)
next
  case False
  then have "min (st div 3) (length wps - 1) = length wps - 1" by linarith
  with False assms show ?thesis
    by (auto simp: lookahead_waypoint_def last_conv_nth split: list.splits)
qed

lemma update_controls_empty:
  "waypoints c = [] \<Longrightarrow> update_controls c = Inl IndexError"
  by (simp add: update_controls_def update_desired_speed_empty)

lemma update_controls_cold:
  assumes "waypoints c \<noteq> []" and "\<not> start_control_loop c"
  shows "update_controls c =
     Inr (c\<lparr>desired_speed := wp_v (waypoints c ! nearest_idx c),
            vars := advance (current_speed c) (wp_v (waypoints c ! nearest_idx c)) (vars c)\<rparr>)"
  using assms
  by (simp add: update_controls_def update_desired_speed_nonempty Let_def
      create_var_v_previous_def create_var_v_diff_previous_def create_var_step_def
      advance_def accumulated_speed_error_def step_count_def
      split: option.splits)

lemma update_controls_warm:
  assumes "waypoints c \<noteq> []" and "start_control_loop c"
  shows "update_controls c =
     (let v_d = wp_v (waypoints c ! nearest_idx c);
          w = waypoints c ! min (step_count (vars c) div 3) (length (waypoints c) - 1)
      in Inr (c\<lparr>desired_speed := v_d,
            set_throttle_val := fmax_fmin (longitudinal_throttle v_d (current_speed c)
                 (previous_speed (vars c)) (accumulated_speed_error (vars c))) 1 0,
            set_steer_val := fmax_fmin (conv_rad_to_steer * lateral_steer (current_x c) (current_y c)
                 (current_yaw c) v_d w (step_count (vars c))) 1 (- 1),
            set_brake_val := fmax_fmin 0 1 0,
            vars := advance (current_speed c) v_d (vars c)\<rparr>))"
  using assms
  by (simp add: update_controls_def update_desired_speed_nonempty Let_def
      lookahead_waypoint_nonempty set_throttle_def set_steer_def set_brake_def
      create_var_v_previous_def create_var_v_diff_previous_def create_var_step_def
      advance_def accumulated_speed_error_def step_count_def previous_speed_def
      split: option.splits)

lemma update_controls_raises:
  assumes "update_controls c = Inl e"
  shows "waypoints c = [] \<and> e = IndexError"
proof (cases "waypoints c = []")
  case True
  with assms show ?thesis by (simp add: update_controls_empty)
next
  case False
  then have "\<exists>c'. update_controls c = Inr c'"
    by (cases "start_control_loop c") (simp_all add: update_controls_warm update_controls_cold Let_def)
  with assms show ?thesis by auto
qed

lemma linalg_norm2_euclidean:
  "linalg_norm2 (wp_x w - cx) (wp_y w - cy) = euclidean_distance cx cy w"
  by (simp add: linalg_norm2_def euclidean_distance_def power2_eq_square)

lemma scan_inv_step:
  assumes inv: "scan_inv cx cy wps i (mi, md)" and i: "i < length wps"
  shows "scan_inv cx cy wps (Suc i)
           (if lt_min_dist (euclidean_distance cx cy (wps ! i)) md
            then (i, Some (euclidean_distance cx cy (wps ! i))) else (mi, md))"
proof (cases md)
  case None
  with inv have "i = 0" by (auto simp: scan_inv_def)
  with None show ?thesis by (simp add: scan_inv_def)
next
  case (Some m)
  with inv have mi: "mi < i" and m: "m = euclidean_distance cx cy (wps ! mi)"
    and le: "\<forall>j < i. euclidean_distance cx cy (wps ! mi) \<le> euclidean_distance cx cy (wps ! j)"
    and lt: "\<forall>j < mi. euclidean_distance cx cy (wps ! mi) < euclidean_distance cx cy (wps ! j)"
    by (auto simp: scan_inv_def)
  show ?thesis
  proof (cases "euclidean_distance cx cy (wps ! i) < m")
    case True
    have "euclidean_distance cx cy (wps ! i) < euclidean_distance cx cy (wps ! j)" if "j < i" for j
      using le that True m by fastforce
    then have "\<forall>j < Suc i. euclidean_distance cx cy (wps ! i) \<le> euclidean_distance cx cy (wps ! j)"
      and "\<forall>j < i. euclidean_distance cx cy (wps ! i) < euclidean_distance cx cy (wps ! j)"
      by (auto simp: less_Suc_eq intro: less_imp_le)
    with True Some show ?thesis by (simp add: scan_inv_def)
  next
    case False
    then have "\<forall>j < Suc i. euclidean_distance cx cy (wps ! mi) \<le> euclidean_distance cx cy (wps ! j)"
      using le m by (auto simp: less_Suc_eq)
    with False Some mi m lt show ?thesis by (simp add: scan_inv_def)
  qed
qed

lemma nearest_scan_inv:
  "scan_inv cx cy wps i acc \<Longrightarrow> i \<le> length wps \<Longrightarrow> drop i wps = ws \<Longrightarrow>
   scan_inv cx cy wps (length wps) (nearest_scan cx cy ws i acc)"
proof (induction ws arbitrary: i acc)
  case Nil
  then have "i = length wps" by simp
  with Nil.prems(1) show ?case by simp
next
  case (Cons w ws)
  obtain mi md where acc: "acc = (mi, md)" by (cases acc)
  from Cons.prems(3) have i: "i < length wps"
    by (metis drop_all list.distinct(1) not_le)
  from Cons.prems(3) i have w: "w = wps ! i" and ws: "drop (Suc i) wps = ws"
    by (metis Cons_nth_drop_Suc list.inject)+
  have "scan_inv cx cy wps (Suc i)
           (if lt_min_dist (euclidean_distance cx cy (wps ! i)) md
            then (i, Some (euclidean_distance cx cy (wps ! i))) else (mi, md))"
    using Cons.prems(1) i unfolding acc by (rule scan_inv_step)
  from Cons.IH[OF this _ ws] i show ?case
    by (simp add: acc w linalg_norm2_euclidean Let_def split: if_splits)
qed

lemma nearest_idx_first_nearest:
  assumes "waypoints c \<noteq> []"
  shows "first_nearest (current_x c) (current_y c) (waypoints c) (nearest_idx c)"
proof -
  have "scan_inv (current_x c) (current_y c) (waypoints c) 0 (0, None)"
    by (simp add: scan_inv_def)
  then have "scan_inv (current_x c) (current_y c) (waypoints c) (length (waypoints c))
       (nearest_scan (current_x c) (current_y c) (waypoints c) 0 (0, None))"
    by (rule nearest_scan_inv) simp_all
  with assms show ?thesis
    by (auto simp: scan_inv_def first_nearest_def nearest_idx_def)
qed

lemma first_nearest_unique:
  "first_nearest cx cy wps i \<Longrightarrow> first_nearest cx cy wps j \<Longrightarrow> i = j"
  unfolding first_nearest_def
  by (metis linorder_neqE_nat not_less)

lemma demo_warm_fields:
  "waypoints demo_warm = demo_path" "start_control_loop demo_warm"
  "current_x demo_warm = 9" "current_y demo_warm = 0" "current_yaw demo_warm = 0"
  "current_speed demo_warm = 2" "vars demo_warm = CUtils_init"
  "get_commands demo_warm = (0, 0, 0)"
  by (simp_all add: demo_warm_def update_values_def Controller2D_init_def Let_def get_commands_def)

lemma demo_path_nearest: "nearest_idx demo_warm = 1"
  by (simp add: nearest_idx_def demo_warm_fields demo_path_def
      Let_def linalg_norm2_def wp_x_def wp_y_def)

lemma demo_update_controls:
  "update_controls demo_warm =
   Inr (demo_warm\<lparr>desired_speed := 8, set_throttle_val := 1, set_steer_val := 0,
          set_brake_val := 0,
          vars := \<lparr>v_previous = Some 2, v_diff_previous = Some 6, step = Some 1\<rparr>\<rparr>)"
proof -
  have ne: "waypoints demo_warm \<noteq> []" by (simp add: demo_warm_fields demo_path_def)
  have vd: "wp_v (demo_path ! nearest_idx demo_warm) = 8"
    by (simp add: demo_path_nearest demo_path_def wp_v_def)
  have sc: "step_count CUtils_init = 0" "previous_speed CUtils_init = 0"
    "accumulated_speed_error CUtils_init = 0"
    by (simp_all add: CUtils_init_def step_count_def previous_speed_def
        accumulated_speed_error_def)
  have th: "longitudinal_throttle 8 2 0 0 = 1"
    by (simp add: longitudinal_throttle_def Let_def)
  have st: "lateral_steer x y yaw vd w 0 = 0" for x y yaw vd w
    by (simp add: lateral_steer_def Let_def)
  have adv: "advance 2 8 CUtils_init =
      \<lparr>v_previous = Some 2, v_diff_previous = Some 6, step = Some 1\<rparr>"
    by (simp add: advance_def CUtils_init_def step_count_def accumulated_speed_error_def)
  show ?thesis
    using update_controls_warm[OF ne demo_warm_fields(2)]
    by (simp add: Let_def vd sc th st adv demo_warm_fields fmax_fmin_def)
qed

section \<open>Command ranges\<close>

lemma fmax_fmin_unit: "0 \<le> fmax_fmin v 1 0 \<and> fmax_fmin v 1 0 \<le> 1"
  by (simp add: fmax_fmin_def)

lemma fmax_fmin_sym: "- 1 \<le> fmax_fmin v 1 (- 1) \<and> fmax_fmin v 1 (- 1) \<le> 1"
  by (simp add: fmax_fmin_def)

lemma update_controls_in_range:
  assumes "commands_in_range c" and "update_controls c = Inr c'"
  shows "commands_in_range c'"
proof -
  from assms(2) have ne: "waypoints c \<noteq> []"
    using update_controls_empty[of c] by auto
  show ?thesis
  proof (cases "start_control_loop c")
    case True
    with ne assms(2) show ?thesis
      using fmax_fmin_unit fmax_fmin_sym
      by (auto simp: update_controls_warm Let_def commands_in_range_def)
  next
    case False
    with ne assms show ?thesis
      by (auto simp: update_controls_cold commands_in_range_def)
  qed
qed

lemma exec_call_in_range:
  assumes "commands_in_range c" and "exec_call k c = Inr c'"
  shows "commands_in_range c'"
proof (cases k)
  case UpdateControls
  with assms show ?thesis by (auto intro: update_controls_in_range)
next
  case (UpdateValues x y yaw speed timestamp frame)
  with assms show ?thesis
    by (auto simp: update_values_def commands_in_range_def Let_def)
next
  case (UpdateWaypoints wps)
  with assms show ?thesis by (auto simp: update_waypoints_def commands_in_range_def)
next
  case (SetThrottle t)
  with assms fmax_fmin_unit[of t] show ?thesis
    by (auto simp: set_throttle_def commands_in_range_def)
next
  case (SetSteer s)
  with assms fmax_fmin_sym[of "conv_rad_to_steer * s"] show ?thesis
    by (auto simp: set_steer_def commands_in_range_def Let_def)
next
  case (SetBrake b)
  with assms fmax_fmin_unit[of b] show ?thesis
    by (auto simp: set_brake_def commands_in_range_def)
qed

lemma run_in_range:
  "commands_in_range c \<Longrightarrow> run ks c = Inr c' \<Longrightarrow> commands_in_range c'"
proof (induction ks arbitrary: c)
  case Nil
  then show ?case by simp
next
  case (Cons k ks)
  then show ?case
    by (auto split: sum.splits dest: exec_call_in_range)
qed

lemma init_in_range: "commands_in_range (Controller2D_init wps)"
  by (simp add: commands_in_range_def Controller2D_init_def)

text \<open>
  Claim C1. A freshly constructed controller reports the commands (0, 0, 0). After every
  sequence of calls that returns (any mix of \<open>update_values\<close>, \<open>update_waypoints\<close>,
  \<open>update_controls\<close> and the three setters, with any real arguments), the stored
  throttle and brake are in [0, 1] and the stored steer is in [-1, 1]. Each setter alone
  puts its own command in range, whatever it is given.
\<close>

theorem C1_commands_in_range:
  "get_commands (Controller2D_init wps) = (0, 0, 0) \<and>
   (\<forall>ks c. run ks (Controller2D_init wps) = Inr c \<longrightarrow> commands_in_range c) \<and>
   (\<forall>c t. 0 \<le> set_throttle_val (set_throttle t c) \<and> set_throttle_val (set_throttle t c) \<le> 1) \<and>
   (\<forall>c b. 0 \<le> set_brake_val (set_brake b c) \<and> set_brake_val (set_brake b c) \<le> 1) \<and>
   (\<forall>c s. - 1 \<le> set_steer_val (set_steer s c) \<and> set_steer_val (set_steer s c) \<le> 1)"
proof -
  have "get_commands (Controller2D_init wps) = (0, 0, 0)"
    by (simp add: get_commands_def Controller2D_init_def)
  moreover have "\<forall>ks c. run ks (Controller2D_init wps) = Inr c \<longrightarrow> commands_in_range c"
    using run_in_range[OF init_in_range] by blast
  moreover have "\<forall>c t. 0 \<le> set_throttle_val (set_throttle t c) \<and> set_throttle_val (set_throttle t c) \<le> 1"
    using fmax_fmin_unit by (simp add: set_throttle_def)
  moreover have "\<forall>c b. 0 \<le> set_brake_val (set_brake b c) \<and> set_brake_val (set_brake b c) \<le> 1"
    using fmax_fmin_unit by (simp add: set_brake_def)
  moreover have "\<forall>c s. - 1 \<le> set_steer_val (set_steer s c) \<and> set_steer_val (set_steer s c) \<le> 1"
    using fmax_fmin_sym by (simp add: set_steer_def Let_def)
  ultimately show ?thesis by blast
qed

theorem C1_commands_in_range_witness:
  "run [UpdateValues 9 0 0 2 0.5 1, UpdateControls] (Controller2D_init demo_path) =
     Inr (demo_warm\<lparr>desired_speed := 8, set_throttle_val := 1, set_steer_val := 0,
          set_brake_val := 0,
          vars := \<lparr>v_previous = Some 2, v_diff_previous = Some 6, step = Some 1\<rparr>\<rparr>) \<and>
   commands_in_range (demo_warm\<lparr>desired_speed := 8, set_throttle_val := 1, set_steer_val := 0,
          set_brake_val := 0,
          vars := \<lparr>v_previous = Some 2, v_diff_previous = Some 6, step = Some 1\<rparr>\<rparr>)"
proof -
  have r: "run [UpdateValues 9 0 0 2 0.5 1, UpdateControls] (Controller2D_init demo_path) =
     Inr (demo_warm\<lparr>desired_speed := 8, set_throttle_val := 1, set_steer_val := 0,
          set_brake_val := 0,
          vars := \<lparr>v_previous = Some 2, v_diff_previous = Some 6, step = Some 1\<rparr>\<rparr>)"
    using demo_update_controls by (simp add: demo_warm_def)
  with C1_commands_in_range[of demo_path] show ?thesis by blast
qed

lemma demo_cold_fields:
  "waypoints demo_cold = demo_path" "\<not> start_control_loop demo_cold"
  "current_x demo_cold = 9" "current_y demo_cold = 0" "current_yaw demo_cold = 0"
  "current_speed demo_cold = 2" "vars demo_cold = CUtils_init"
  "get_commands demo_cold = (0, 0, 0)"
  by (simp_all add: demo_cold_def update_values_def Controller2D_init_def Let_def get_commands_def)


lemma demo_path_nonempty: "demo_path \<noteq> []"
  by (simp add: demo_path_def)

lemma demo_path_speed: "wp_v (demo_path ! Suc 0) = 8"
  by (simp add: demo_path_def wp_v_def)



section \<open>The empty path\<close>

text \<open>
  Claim C2, as stated, asks for a distinct EmptyPath error. The source has no such
  error: on a fresh controller constructed with no waypoint, \<open>update_controls\<close> raises
  the \<open>IndexError\<close> of \<open>self._waypoints[-1]\<close>.
\<close>

theorem C2_empty_path_counterexample:
  "update_controls (Controller2D_init []) = Inl IndexError"
  by (simp add: update_controls_empty Controller2D_init_def)

text \<open>
  Claim C2, amended. With an empty waypoint list \<open>update_controls\<close> never returns a
  numeric result: it fails with \<open>IndexError\<close>, and so does the call of
  \<open>update_desired_speed\<close> inside it, where \<open>self._waypoints[-1]\<close> raises.
\<close>

theorem C2_empty_path_index_error:
  "waypoints c = [] \<Longrightarrow> update_controls c = Inl IndexError \<and> update_desired_speed c = Inl IndexError"
  by (simp add: update_controls_empty update_desired_speed_empty)

theorem C2_empty_path_index_error_witness:
  "waypoints (update_waypoints [] demo_warm) = [] \<and>
   update_controls (update_waypoints [] demo_warm) = Inl IndexError \<and>
   update_desired_speed (update_waypoints [] demo_warm) = Inl IndexError"
proof -
  have e: "waypoints (update_waypoints [] demo_warm) = []"
    by (simp add: update_waypoints_def)
  from C2_empty_path_index_error[OF e] e show ?thesis by simp
qed

section \<open>The Cold state\<close>





section \<open>The longitudinal controller\<close>






section \<open>PersistentState\<close>

lemma create_var_existing:
  "v_previous u = Some a \<Longrightarrow> create_var_v_previous d u = u"
  "v_diff_previous u = Some a \<Longrightarrow> create_var_v_diff_previous d u = u"
  "step u = Some n \<Longrightarrow> create_var_step m u = u"
  by (simp_all add: create_var_v_previous_def create_var_v_diff_previous_def create_var_step_def)

lemma update_controls_vars:
  assumes "waypoints c \<noteq> []"
  shows "\<exists>c'. update_controls c = Inr c' \<and>
     desired_speed c' = wp_v (waypoints c ! nearest_idx c) \<and>
     vars c' = advance (current_speed c) (desired_speed c') (vars c)"
proof (cases "start_control_loop c")
  case True
  with assms show ?thesis by (simp add: update_controls_warm Let_def)
next
  case False
  with assms show ?thesis by (simp add: update_controls_cold)
qed

lemma exec_call_step_count:
  assumes "exec_call k c = Inr c'"
  shows "step_count (vars c') = step_count (vars c) + (if is_update_controls k then 1 else 0)"
proof (cases k)
  case UpdateControls
  with assms have ne: "waypoints c \<noteq> []"
    using update_controls_empty[of c] by auto
  from update_controls_vars[OF ne] UpdateControls assms show ?thesis
    by (auto simp: advance_def step_count_def)
next
  case (UpdateValues x y yaw speed timestamp frame)
  with assms show ?thesis by (auto simp: update_values_def Let_def)
next
  case (UpdateWaypoints wps)
  with assms show ?thesis by (auto simp: update_waypoints_def)
next
  case (SetThrottle t)
  with assms show ?thesis by (auto simp: set_throttle_def)
next
  case (SetSteer s)
  with assms show ?thesis by (auto simp: set_steer_def Let_def)
next
  case (SetBrake b)
  with assms show ?thesis by (auto simp: set_brake_def)
qed

lemma run_step_count:
  "run ks c = Inr c' \<Longrightarrow>
   step_count (vars c') = step_count (vars c) + length (filter is_update_controls ks)"
proof (induction ks arbitrary: c)
  case Nil
  then show ?case by simp
next
  case (Cons k ks)
  from Cons.prems obtain c1 where k: "exec_call k c = Inr c1" and r: "run ks c1 = Inr c'"
    by (auto split: sum.splits)
  from Cons.IH[OF r] exec_call_step_count[OF k] show ?case by simp
qed

text \<open>
  Claim C8. On a non-empty path every call of \<open>update_controls\<close>, Cold or Warm,
  returns with \<open>v_previous\<close> the speed of this tick, \<open>v_diff_previous\<close> the old
  accumulated error plus \<open>v_d - v\<close> (no reset, no clamp) and \<open>step\<close> one more than
  before. \<open>create_var\<close> on an attribute that exists changes nothing. From a fresh
  controller, after any call sequence that returns, the step counter is the number of
  \<open>update_controls\<close> calls made.
\<close>

theorem C8_persistent_state_advance:
  "(waypoints c \<noteq> [] \<longrightarrow>
      (\<exists>c'. update_controls c = Inr c' \<and>
            v_previous (vars c') = Some (current_speed c) \<and>
            v_diff_previous (vars c') =
              Some (accumulated_speed_error (vars c) + (desired_speed c' - current_speed c)) \<and>
            step (vars c') = Some (step_count (vars c) + 1))) \<and>
   (v_previous u = Some a \<longrightarrow> create_var_v_previous a0 u = u) \<and>
   (v_diff_previous u = Some b \<longrightarrow> create_var_v_diff_previous b0 u = u) \<and>
   (step u = Some n \<longrightarrow> create_var_step n0 u = u) \<and>
   (run ks (Controller2D_init wps) = Inr d \<longrightarrow>
      step_count (vars d) = length (filter is_update_controls ks))"
proof -
  have "\<exists>c'. update_controls c = Inr c' \<and>
            v_previous (vars c') = Some (current_speed c) \<and>
            v_diff_previous (vars c') =
              Some (accumulated_speed_error (vars c) + (desired_speed c' - current_speed c)) \<and>
            step (vars c') = Some (step_count (vars c) + 1)"
    if "waypoints c \<noteq> []"
    using update_controls_vars[OF that] by (auto simp: advance_def)
  moreover have "step_count (vars d) = length (filter is_update_controls ks)"
    if "run ks (Controller2D_init wps) = Inr d"
    using run_step_count[OF that]
    by (simp add: Controller2D_init_def CUtils_init_def step_count_def)
  ultimately show ?thesis
    by (simp add: create_var_existing)
qed

theorem C8_persistent_state_advance_witness:
  "waypoints demo_cold \<noteq> [] \<and>
   (\<exists>c'. update_controls demo_cold = Inr c' \<and>
         v_previous (vars c') = Some 2 \<and>
         v_diff_previous (vars c') = Some (0 + (desired_speed c' - 2)) \<and>
         step (vars c') = Some 1) \<and>
   create_var_v_previous 0 \<lparr>v_previous = Some 2, v_diff_previous = Some 6, step = Some 1\<rparr> =
     \<lparr>v_previous = Some 2, v_diff_previous = Some 6, step = Some 1\<rparr> \<and>
   create_var_v_diff_previous 0 \<lparr>v_previous = Some 2, v_diff_previous = Some 6, step = Some 1\<rparr> =
     \<lparr>v_previous = Some 2, v_diff_previous = Some 6, step = Some 1\<rparr> \<and>
   create_var_step 0 \<lparr>v_previous = Some 2, v_diff_previous = Some 6, step = Some 1\<rparr> =
     \<lparr>v_previous = Some 2, v_diff_previous = Some 6, step = Some 1\<rparr> \<and>
   run [UpdateValues 9 0 0 2 0.5 1, UpdateControls] (Controller2D_init demo_path) =
     Inr (demo_warm\<lparr>desired_speed := 8, set_throttle_val := 1, set_steer_val := 0,
          set_brake_val := 0,
          vars := \<lparr>v_previous = Some 2, v_diff_previous = Some 6, step = Some 1\<rparr>\<rparr>) \<and>
   step_count (vars (demo_warm\<lparr>desired_speed := 8, set_throttle_val := 1, set_steer_val := 0,
          set_brake_val := 0,
          vars := \<lparr>v_previous = Some 2, v_diff_previous = Some 6, step = Some 1\<rparr>\<rparr>)) = 1"
proof -
  let ?u = "\<lparr>v_previous = Some 2, v_diff_previous = Some 6, step = Some (1::nat)\<rparr>"
  let ?d = "demo_warm\<lparr>desired_speed := 8, set_throttle_val := 1, set_steer_val := 0,
          set_brake_val := 0, vars := ?u\<rparr>"
  let ?ks = "[UpdateValues 9 0 0 2 0.5 1, UpdateControls]"
  have ne: "waypoints demo_cold \<noteq> []"
    by (simp add: demo_cold_fields demo_path_nonempty)
  have u: "v_previous ?u = Some 2" "v_diff_previous ?u = Some 6" "step ?u = Some 1"
    by simp_all
  have r: "run ?ks (Controller2D_init demo_path) = Inr ?d"
    using demo_update_controls by (simp add: demo_warm_def)
  have z: "accumulated_speed_error CUtils_init = 0" "step_count CUtils_init = 0"
    by (simp_all add: accumulated_speed_error_def step_count_def CUtils_init_def)
  note t = C8_persistent_state_advance[of demo_cold ?u 2 0 6 0 1 0 ?ks demo_path ?d]
  from t ne have "\<exists>c'. update_controls demo_cold = Inr c' \<and>
         v_previous (vars c') = Some 2 \<and>
         v_diff_previous (vars c') = Some (0 + (desired_speed c' - 2)) \<and>
         step (vars c') = Some 1"
    by (simp add: demo_cold_fields z)
  moreover from t u have "create_var_v_previous 0 ?u = ?u"
    "create_var_v_diff_previous 0 ?u = ?u" "create_var_step 0 ?u = ?u"
    by blast+
  moreover from t r have "step_count (vars ?d) = 1" by simp
  ultimately show ?thesis using ne r by blast
qed

section \<open>The lateral controller\<close>

lemma lateral_steer_spec:
  "lateral_steer x y yaw v_d w st = spec_steer_angle x y yaw v_d (wp_x w) (wp_y w) st"
  by (simp add: lateral_steer_def spec_steer_angle_def spec_alpha_def spec_processed_yaw_def
      clamp_def Let_def max_def)

lemma clamp_bounds: "lo \<le> hi \<Longrightarrow> lo \<le> clamp lo hi v \<and> clamp lo hi v \<le> hi"
  by (simp add: clamp_def)

lemma deadband_bound:
  fixes a :: real
  assumes "- 0.3 \<le> a \<and> a \<le> 0.3"
  shows "\<bar>if \<bar>a\<bar> < 0.05 then 0 else a\<bar> \<le> 0.3"
  using assms by auto

lemma spec_steer_angle_bound: "\<bar>spec_steer_angle x y yaw v_d x_L y_L st\<bar> \<le> 0.3"
  unfolding spec_steer_angle_def Let_def
  by (rule deadband_bound) (rule clamp_bounds, simp)

lemma spec_steer_angle_startup: "st < 100 \<Longrightarrow> spec_steer_angle x y yaw v_d x_L y_L st = 0"
  by (simp add: spec_steer_angle_def clamp_def Let_def)

lemma conv_rad_to_steer_pos: "0 < conv_rad_to_steer"
  by (simp add: conv_rad_to_steer_def)

lemma conv_rad_to_steer_bound: "0.3 * conv_rad_to_steer < 1"
proof -
  have "2 \<le> pi" by (rule pi_ge_two)
  then have "54 < 70 * pi" by simp
  then show ?thesis by (simp add: conv_rad_to_steer_def field_simps)
qed

lemma steer_scaled_bound:
  assumes "\<bar>a\<bar> \<le> 0.3"
  shows "\<bar>conv_rad_to_steer * a\<bar> \<le> 0.3 * conv_rad_to_steer"
proof -
  have "\<bar>conv_rad_to_steer * a\<bar> = conv_rad_to_steer * \<bar>a\<bar>"
    using conv_rad_to_steer_pos by (simp add: abs_mult)
  also have "\<dots> \<le> conv_rad_to_steer * 0.3"
    using assms conv_rad_to_steer_pos by (intro mult_left_mono) simp_all
  finally show ?thesis by (simp add: mult.commute)
qed

lemma fmax_fmin_sym_id: "\<bar>v\<bar> \<le> 1 \<Longrightarrow> fmax_fmin v 1 (- 1) = v"
  by (simp add: fmax_fmin_def)

lemma set_steer_unclamped:
  assumes "\<bar>a\<bar> \<le> 0.3"
  shows "fmax_fmin (conv_rad_to_steer * a) 1 (- 1) = conv_rad_to_steer * a"
proof -
  from steer_scaled_bound[OF assms] conv_rad_to_steer_bound
  have "\<bar>conv_rad_to_steer * a\<bar> \<le> 1" by linarith
  then show ?thesis by (rule fmax_fmin_sym_id)
qed

lemma lookahead_index_div: "spec_lookahead_index st wps = min (st div 3) (length wps - 1)"
proof -
  have "\<lfloor>real st / real 3\<rfloor> = int (st div 3)" by (rule floor_divide_of_nat_eq)
  then show ?thesis by (simp add: spec_lookahead_index_def)
qed

lemma update_controls_steer:
  assumes "start_control_loop c" and "waypoints c \<noteq> []"
  shows "\<exists>c'. update_controls c = Inr c' \<and>
           desired_speed c' = wp_v (waypoints c ! nearest_idx c) \<and>
           set_steer_val c' =
             conv_rad_to_steer *
               lateral_steer (current_x c) (current_y c) (current_yaw c) (desired_speed c')
                 (waypoints c ! spec_lookahead_index (step_count (vars c)) (waypoints c))
                 (step_count (vars c))"
  using assms
  by (simp add: update_controls_warm Let_def lookahead_index_div lateral_steer_spec
      set_steer_unclamped[OF spec_steer_angle_bound])

lemma demo_steer_fields:
  "waypoints demo_steer = demo_path" "start_control_loop demo_steer"
  "current_x demo_steer = 9" "current_y demo_steer = 0" "current_yaw demo_steer = - (pi / 2)"
  "current_speed demo_steer = 2" "step_count (vars demo_steer) = 300"
  by (simp_all add: demo_steer_def demo_warm_fields step_count_def)

lemma demo_steer_nearest: "nearest_idx demo_steer = 1"
  by (simp add: nearest_idx_def demo_steer_fields demo_path_def
      Let_def linalg_norm2_def wp_x_def wp_y_def)

lemma arctan_three_quarters: "0.3 < arctan (3 / 4)"
proof -
  have "(4 / 3)\<^sup>2 < (sqrt 3)\<^sup>2" by (simp add: power2_eq_square)
  then have "4 / 3 < sqrt 3" by (intro real_less_rsqrt) (simp add: power2_eq_square)
  then have "1 / sqrt 3 < 3 / 4" by (simp add: field_simps)
  then have "arctan (1 / sqrt 3) < arctan (3 / 4)" by (rule arctan_monotone)
  moreover have "arctan (1 / sqrt 3) = pi / 6"
  proof -
    have "arctan (tan (pi / 6)) = pi / 6" by (rule arctan_tan) simp_all
    then show ?thesis by (simp add: tan_30)
  qed
  moreover have "0.3 < pi / 6" using pi_ge_two by simp
  ultimately show ?thesis by simp
qed

lemma demo_steer_angle: "spec_steer_angle 9 0 (- (pi / 2)) 8 20 0 300 = 0.3"
proof -
  have y: "spec_processed_yaw (- (pi / 2)) = 0" by (simp add: spec_processed_yaw_def)
  have a: "spec_alpha 9 0 (- (pi / 2)) 20 0 = pi / 2"
    by (simp add: spec_alpha_def y atan2_def)
  have "arctan (2 * 3.0 * sin (pi / 2) / (0.8 * max 8 10.0)) = arctan (3 / 4)" by simp
  with arctan_three_quarters show ?thesis
    by (simp add: spec_steer_angle_def a Let_def clamp_def)
qed

lemma demo_lookahead: "spec_lookahead_index 300 demo_path = 2"
  by (simp add: lookahead_index_div demo_path_def)

lemma demo_path_last: "wp_x (demo_path ! 2) = 20" "wp_y (demo_path ! 2) = 0"
  by (simp_all add: demo_path_def wp_x_def wp_y_def)

lemma demo_steer_update_controls:
  "\<exists>c'. update_controls demo_steer = Inr c' \<and> set_steer_val c' = conv_rad_to_steer * 0.3"
  using update_controls_steer[of demo_steer]
  by (auto simp: demo_steer_fields demo_path_nonempty demo_steer_nearest demo_path_speed
      demo_lookahead demo_path_last lateral_steer_spec demo_steer_angle)

text \<open>
  Claim C7. On a non-empty path the lookahead waypoint is the one at index
  \<open>min (floor (step / 3)) (len - 1)\<close>, for every value of the step counter, and
  this is the waypoint the steering of a Warm \<open>update_controls\<close> is computed from.
\<close>

theorem C7_lookahead_index:
  "(wps \<noteq> [] \<longrightarrow>
      lookahead_waypoint st wps = Inr (wps ! min (nat \<lfloor>real st / 3\<rfloor>) (length wps - 1))) \<and>
   (start_control_loop c \<and> waypoints c \<noteq> [] \<longrightarrow>
      (\<exists>c'. update_controls c = Inr c' \<and>
            set_steer_val c' =
              conv_rad_to_steer *
                lateral_steer (current_x c) (current_y c) (current_yaw c) (desired_speed c')
                  (waypoints c !
                     min (nat \<lfloor>real (step_count (vars c)) / 3\<rfloor>) (length (waypoints c) - 1))
                  (step_count (vars c))))"
proof -
  have "lookahead_waypoint st wps = Inr (wps ! min (nat \<lfloor>real st / 3\<rfloor>) (length wps - 1))"
    if "wps \<noteq> []"
    using lookahead_waypoint_nonempty[OF that, of st] lookahead_index_div[of st wps]
    by (simp add: spec_lookahead_index_def)
  moreover have "\<exists>c'. update_controls c = Inr c' \<and>
            set_steer_val c' =
              conv_rad_to_steer *
                lateral_steer (current_x c) (current_y c) (current_yaw c) (desired_speed c')
                  (waypoints c !
                     min (nat \<lfloor>real (step_count (vars c)) / 3\<rfloor>) (length (waypoints c) - 1))
                  (step_count (vars c))"
    if "start_control_loop c" "waypoints c \<noteq> []"
    using update_controls_steer[OF that] by (auto simp: spec_lookahead_index_def)
  ultimately show ?thesis by blast
qed

theorem C7_lookahead_index_witness:
  "demo_path \<noteq> [] \<and>
   lookahead_waypoint 4 demo_path = Inr (10, 0, 8) \<and>
   lookahead_waypoint 300 demo_path = Inr (20, 0, 3) \<and>
   start_control_loop demo_steer \<and> waypoints demo_steer \<noteq> [] \<and>
   (\<exists>c'. update_controls demo_steer = Inr c' \<and>
         set_steer_val c' =
           conv_rad_to_steer *
             lateral_steer 9 0 (- (pi / 2)) (desired_speed c') (20, 0, 3) 300)"
proof -
  have h: "start_control_loop demo_steer" "waypoints demo_steer \<noteq> []"
    by (simp_all add: demo_steer_fields demo_path_nonempty)
  have f4: "min (nat \<lfloor>real 4 / 3\<rfloor>) (length demo_path - 1) = 1"
    using lookahead_index_div[of 4 demo_path]
    by (simp add: spec_lookahead_index_def demo_path_def)
  have f300: "min (nat \<lfloor>real 300 / 3\<rfloor>) (length demo_path - 1) = 2"
    using lookahead_index_div[of 300 demo_path]
    by (simp add: spec_lookahead_index_def demo_path_def)
  have e: "demo_path ! 1 = (10, 0, 8)" "demo_path ! 2 = (20, 0, 3)"
    by (simp_all add: demo_path_def)
  from C7_lookahead_index[of demo_path 4 demo_steer] demo_path_nonempty
  have 1: "lookahead_waypoint 4 demo_path = Inr (10, 0, 8)"
    unfolding f4 e by blast
  note t = C7_lookahead_index[of demo_path 300 demo_steer]
  from t demo_path_nonempty have 2: "lookahead_waypoint 300 demo_path = Inr (20, 0, 3)"
    unfolding f300 e by blast
  from t h have "\<exists>c'. update_controls demo_steer = Inr c' \<and>
            set_steer_val c' =
              conv_rad_to_steer *
                lateral_steer (current_x demo_steer) (current_y demo_steer)
                  (current_yaw demo_steer) (desired_speed c')
                  (waypoints demo_steer !
                     min (nat \<lfloor>real (step_count (vars demo_steer)) / 3\<rfloor>)
                       (length (waypoints demo_steer) - 1))
                  (step_count (vars demo_steer))"
    by blast
  then have 3: "\<exists>c'. update_controls demo_steer = Inr c' \<and>
         set_steer_val c' =
           conv_rad_to_steer *
             lateral_steer 9 0 (- (pi / 2)) (desired_speed c') (20, 0, 3) 300"
    unfolding demo_steer_fields f300 e .
  from demo_path_nonempty 1 2 h 3 show ?thesis by blast
qed

text \<open>
  Claim C10. After a Warm \<open>update_controls\<close> on a non-empty path the steering angle has
  magnitude at most 0.3, the clamp to [-1, 1] inside \<open>set_steer\<close> leaves the converted
  value as it is, and the stored steer has magnitude at most \<open>0.3 * (180/70/pi)\<close>,
  which is below 1.
\<close>

theorem C10_steer_magnitude:
  assumes "start_control_loop c" and "waypoints c \<noteq> []"
  shows "\<exists>c' a. update_controls c = Inr c' \<and>
           a = lateral_steer (current_x c) (current_y c) (current_yaw c) (desired_speed c')
                 (waypoints c ! spec_lookahead_index (step_count (vars c)) (waypoints c))
                 (step_count (vars c)) \<and>
           \<bar>a\<bar> \<le> 0.3 \<and>
           fmax_fmin (conv_rad_to_steer * a) 1 (- 1) = conv_rad_to_steer * a \<and>
           set_steer_val c' = conv_rad_to_steer * a \<and>
           \<bar>set_steer_val c'\<bar> \<le> 0.3 * (180 / 70 / pi) \<and>
           0.3 * (180 / 70 / pi) < 1"
proof -
  from update_controls_steer[OF assms] obtain c' where
    u: "update_controls c = Inr c'" and
    s: "set_steer_val c' = conv_rad_to_steer *
             lateral_steer (current_x c) (current_y c) (current_yaw c) (desired_speed c')
               (waypoints c ! spec_lookahead_index (step_count (vars c)) (waypoints c))
               (step_count (vars c))"
    by blast
  define a where "a = lateral_steer (current_x c) (current_y c) (current_yaw c) (desired_speed c')
               (waypoints c ! spec_lookahead_index (step_count (vars c)) (waypoints c))
               (step_count (vars c))"
  have b: "\<bar>a\<bar> \<le> 0.3"
    unfolding a_def lateral_steer_spec by (rule spec_steer_angle_bound)
  have "\<bar>set_steer_val c'\<bar> \<le> 0.3 * (180 / 70 / pi)"
    using steer_scaled_bound[OF b] s by (simp add: a_def conv_rad_to_steer_def)
  moreover have "0.3 * (180 / 70 / pi) < 1"
    using conv_rad_to_steer_bound by (simp add: conv_rad_to_steer_def)
  moreover note set_steer_unclamped[OF b] u s[folded a_def] b a_def
  ultimately show ?thesis by blast
qed

theorem C10_steer_magnitude_witness:
  "start_control_loop demo_steer \<and> waypoints demo_steer \<noteq> [] \<and>
   (\<exists>c'. update_controls demo_steer = Inr c' \<and>
         set_steer_val c' = 0.3 * (180 / 70 / pi) \<and>
         \<bar>set_steer_val c'\<bar> \<le> 0.3 * (180 / 70 / pi))"
proof -
  have h: "start_control_loop demo_steer" "waypoints demo_steer \<noteq> []"
    by (simp_all add: demo_steer_fields demo_path_nonempty)
  from C10_steer_magnitude[OF h] obtain c' where
    u: "update_controls demo_steer = Inr c'" and
    b: "\<bar>set_steer_val c'\<bar> \<le> 0.3 * (180 / 70 / pi)"
    by blast
  from demo_steer_update_controls u have "set_steer_val c' = 0.3 * (180 / 70 / pi)"
    by (auto simp: conv_rad_to_steer_def)
  with h u b show ?thesis by blast
qed

section \<open>The nearest waypoint\<close>

lemma demo_tie_fields:
  "waypoints demo_tie = tie_path" "current_x demo_tie = 9" "current_y demo_tie = 0"
  by (simp_all add: demo_tie_def update_values_def Controller2D_init_def Let_def)

lemma tie_first_nearest: "first_nearest 9 0 tie_path 1"
  by (simp add: first_nearest_def tie_path_def euclidean_distance_def wp_x_def wp_y_def
      less_Suc_eq all_conj_distrib numeral_3_eq_3)

section \<open>Determinism and the timestamp\<close>

lemma nearest_idx_timestamp: "nearest_idx (c\<lparr>current_timestamp := t\<rparr>) = nearest_idx c"
  by (simp add: nearest_idx_def)

lemma update_controls_timestamp:
  "update_controls (c\<lparr>current_timestamp := t\<rparr>) =
     map_sum id (\<lambda>d. d\<lparr>current_timestamp := t\<rparr>) (update_controls c)"
proof (cases "waypoints c = []")
  case True
  then show ?thesis by (simp add: update_controls_empty)
next
  case False
  show ?thesis
  proof (cases "start_control_loop c")
    case True
    with False show ?thesis
      by (simp add: update_controls_warm Let_def nearest_idx_timestamp)
  next
    case c: False
    with False show ?thesis
      by (simp add: update_controls_cold nearest_idx_timestamp)
  qed
qed

lemma exec_call_timestamp:
  assumes "erase_timestamp k1 = erase_timestamp k2"
  shows "\<exists>r t1' t2'.
           exec_call k1 (c\<lparr>current_timestamp := t1\<rparr>) =
             map_sum id (\<lambda>d. d\<lparr>current_timestamp := t1'\<rparr>) r \<and>
           exec_call k2 (c\<lparr>current_timestamp := t2\<rparr>) =
             map_sum id (\<lambda>d. d\<lparr>current_timestamp := t2'\<rparr>) r"
proof (cases k1)
  case (UpdateValues x y yaw speed ta frame)
  with assms obtain tb where k2: "k2 = UpdateValues x y yaw speed tb frame"
    by (cases k2) auto
  let ?r = "Inr (update_values x y yaw speed 0 frame c) :: py_error + Controller2D"
  have "exec_call k1 (c\<lparr>current_timestamp := t1\<rparr>) =
          map_sum id (\<lambda>d. d\<lparr>current_timestamp := ta\<rparr>) ?r"
    by (simp add: UpdateValues update_values_def Let_def)
  moreover have "exec_call k2 (c\<lparr>current_timestamp := t2\<rparr>) =
          map_sum id (\<lambda>d. d\<lparr>current_timestamp := tb\<rparr>) ?r"
    by (simp add: k2 update_values_def Let_def)
  ultimately show ?thesis by blast
next
  case (UpdateWaypoints wps)
  with assms have k2: "k2 = UpdateWaypoints wps" by (cases k2) auto
  let ?r = "Inr (update_waypoints wps c) :: py_error + Controller2D"
  have "exec_call k1 (c\<lparr>current_timestamp := t1\<rparr>) =
          map_sum id (\<lambda>d. d\<lparr>current_timestamp := t1\<rparr>) ?r"
    "exec_call k2 (c\<lparr>current_timestamp := t2\<rparr>) =
          map_sum id (\<lambda>d. d\<lparr>current_timestamp := t2\<rparr>) ?r"
    by (simp_all add: UpdateWaypoints k2 update_waypoints_def)
  then show ?thesis by blast
next
  case UpdateControls
  with assms have k2: "k2 = UpdateControls" by (cases k2) auto
  have "exec_call k1 (c\<lparr>current_timestamp := t1\<rparr>) =
          map_sum id (\<lambda>d. d\<lparr>current_timestamp := t1\<rparr>) (update_controls c)"
    "exec_call k2 (c\<lparr>current_timestamp := t2\<rparr>) =
          map_sum id (\<lambda>d. d\<lparr>current_timestamp := t2\<rparr>) (update_controls c)"
    by (simp_all add: UpdateControls k2 update_controls_timestamp)
  then show ?thesis by blast
next
  case (SetThrottle v)
  with assms have k2: "k2 = SetThrottle v" by (cases k2) auto
  let ?r = "Inr (set_throttle v c) :: py_error + Controller2D"
  have "exec_call k1 (c\<lparr>current_timestamp := t1\<rparr>) =
          map_sum id (\<lambda>d. d\<lparr>current_timestamp := t1\<rparr>) ?r"
    "exec_call k2 (c\<lparr>current_timestamp := t2\<rparr>) =
          map_sum id (\<lambda>d. d\<lparr>current_timestamp := t2\<rparr>) ?r"
    by (simp_all add: SetThrottle k2 set_throttle_def)
  then show ?thesis by blast
next
  case (SetSteer v)
  with assms have k2: "k2 = SetSteer v" by (cases k2) auto
  let ?r = "Inr (set_steer v c) :: py_error + Controller2D"
  have "exec_call k1 (c\<lparr>current_timestamp := t1\<rparr>) =
          map_sum id (\<lambda>d. d\<lparr>current_timestamp := t1\<rparr>) ?r"
    "exec_call k2 (c\<lparr>current_timestamp := t2\<rparr>) =
          map_sum id (\<lambda>d. d\<lparr>current_timestamp := t2\<rparr>) ?r"
    by (simp_all add: SetSteer k2 set_steer_def Let_def)
  then show ?thesis by blast
next
  case (SetBrake v)
  with assms have k2: "k2 = SetBrake v" by (cases k2) auto
  let ?r = "Inr (set_brake v c) :: py_error + Controller2D"
  have "exec_call k1 (c\<lparr>current_timestamp := t1\<rparr>) =
          map_sum id (\<lambda>d. d\<lparr>current_timestamp := t1\<rparr>) ?r"
    "exec_call k2 (c\<lparr>current_timestamp := t2\<rparr>) =
          map_sum id (\<lambda>d. d\<lparr>current_timestamp := t2\<rparr>) ?r"
    by (simp_all add: SetBrake k2 set_brake_def)
  then show ?thesis by blast
qed

lemma trace_timestamp:
  "map erase_timestamp ks1 = map erase_timestamp ks2 \<Longrightarrow>
   trace ks1 (c\<lparr>current_timestamp := t1\<rparr>) = trace ks2 (c\<lparr>current_timestamp := t2\<rparr>)"
proof (induction ks1 arbitrary: ks2 c t1 t2)
  case Nil
  then show ?case by simp
next
  case (Cons k1 ks1)
  from Cons.prems obtain k2 ks2' where ks2: "ks2 = k2 # ks2'"
    and k: "erase_timestamp k1 = erase_timestamp k2"
    and r: "map erase_timestamp ks1 = map erase_timestamp ks2'"
    by (cases ks2) auto
  from exec_call_timestamp[OF k, where c = c and ?t1.0 = t1 and ?t2.0 = t2] obtain res t1' t2' where
    e1: "exec_call k1 (c\<lparr>current_timestamp := t1\<rparr>) =
             map_sum id (\<lambda>d. d\<lparr>current_timestamp := t1'\<rparr>) res" and
    e2: "exec_call k2 (c\<lparr>current_timestamp := t2\<rparr>) =
             map_sum id (\<lambda>d. d\<lparr>current_timestamp := t2'\<rparr>) res"
    by blast
  show ?case
  proof (cases res)
    case (Inl e)
    with e1 e2 ks2 show ?thesis by simp
  next
    case (Inr d)
    with e1 e2 ks2 Cons.IH[OF r, where c = d and ?t1.0 = t1' and ?t2.0 = t2'] show ?thesis
      by (simp add: get_commands_def)
  qed
qed

text \<open>
  Claim C9. Two fresh controllers on the same path, given call sequences that agree
  except possibly in the timestamps passed to \<open>update_values\<close>, show the same sequence
  of \<open>get_commands\<close> results (and end with the same exception, if any). Identical
  sequences are the special case of equal timestamps: the outputs are a function of the
  calls, and the timestamp is not an argument of that function.
\<close>

theorem C9_timestamp_independence:
  "map erase_timestamp ks1 = map erase_timestamp ks2 \<Longrightarrow>
   trace ks1 (Controller2D_init wps) = trace ks2 (Controller2D_init wps)"
proof -
  assume h: "map erase_timestamp ks1 = map erase_timestamp ks2"
  have i: "(Controller2D_init wps)\<lparr>current_timestamp := 0\<rparr> = Controller2D_init wps"
    by (simp add: Controller2D_init_def)
  from trace_timestamp[OF h, where c = "Controller2D_init wps" and ?t1.0 = 0 and ?t2.0 = 0]
  show ?thesis
    unfolding i .
qed

theorem C9_timestamp_independence_witness:
  "map erase_timestamp [UpdateValues 9 0 0 2 0.5 1, UpdateControls] =
     map erase_timestamp [UpdateValues 9 0 0 2 7 1, UpdateControls] \<and>
   trace [UpdateValues 9 0 0 2 7 1, UpdateControls] (Controller2D_init demo_path) =
     [Inr (0, 0, 0), Inr (1, 0, 0)] \<and>
   trace [UpdateValues 9 0 0 2 0.5 1, UpdateControls] (Controller2D_init demo_path) =
     [Inr (0, 0, 0), Inr (1, 0, 0)]"
proof -
  have h: "map erase_timestamp [UpdateValues 9 0 0 2 0.5 1, UpdateControls] =
     map erase_timestamp [UpdateValues 9 0 0 2 7 1, UpdateControls]" by simp
  have a: "trace [UpdateValues 9 0 0 2 0.5 1, UpdateControls] (Controller2D_init demo_path) =
     [Inr (0, 0, 0), Inr (1, 0, 0)]"
  proof -
    have w: "update_values 9 0 0 2 (1 / 2) 1 (Controller2D_init demo_path) = demo_warm"
      by (simp add: demo_warm_def)
    show ?thesis
      using demo_warm_fields(8) by (simp add: w demo_update_controls get_commands_def)
  qed
  from C9_timestamp_independence[OF h, of demo_path] a h show ?thesis by simp
qed

section \<open>Symbolic execution in floating-point arithmetic\<close>

lemma fl_less_irrefl: "\<not> fl_less a a"
  by (cases a) simp_all

lemma fl_less_trans: "fl_less a b \<Longrightarrow> fl_less b c \<Longrightarrow> fl_less a c"
  by (cases a; cases b; cases c) simp_all

lemma fl_less_below: "fl_less a b \<Longrightarrow> \<not> fl_less c b \<Longrightarrow> fl_less a c"
  by (cases a; cases b; cases c) simp_all

lemma nearest_scan_fl_bound:
  "ws \<noteq> [] \<Longrightarrow> fst acc < i + length ws \<Longrightarrow>
   fst (nearest_scan_fl ops cx cy ws i acc) < i + length ws"
proof (induction ws arbitrary: i acc)
  case Nil then show ?case by simp
next
  case (Cons w ws)
  obtain mi md where acc: "acc = (mi, md)" by (cases acc)
  show ?case
  proof (cases ws)
    case Nil
    with Cons.prems acc show ?thesis by (auto simp: Let_def)
  next
    case (Cons w' ws')
    with Cons.IH[of "(i, fnorm ops (fsub ops (wp_x w) cx) (fsub ops (wp_y w) cy))" "Suc i"]
         Cons.IH[of "(mi, md)" "Suc i"] Cons.prems acc
    show ?thesis by (auto simp: Let_def)
  qed
qed

lemma nearest_idx_fl_lt: "waypoints c \<noteq> [] \<Longrightarrow> nearest_idx_fl ops c < length (waypoints c)"
  using nearest_scan_fl_bound[of "waypoints c" "(0, None)" 0] by (simp add: nearest_idx_fl_def)

lemma update_desired_speed_fl_empty:
  "waypoints c = [] \<Longrightarrow> update_desired_speed_fl ops c = Inl IndexError"
  by (simp add: update_desired_speed_fl_def)

lemma update_desired_speed_fl_nonempty:
  assumes "waypoints c \<noteq> []"
  shows "update_desired_speed_fl ops c =
           Inr (c\<lparr>desired_speed := wp_v (waypoints c ! nearest_idx_fl ops c)\<rparr>)"
proof -
  have lt: "nearest_idx_fl ops c < length (waypoints c)" using assms by (rule nearest_idx_fl_lt)
  show ?thesis
  proof (cases "int (nearest_idx_fl ops c) < int (length (waypoints c)) - 1")
    case True
    then show ?thesis by (simp add: update_desired_speed_fl_def nearest_idx_fl_def Let_def)
  next
    case False
    with lt have "nearest_idx_fl ops c = length (waypoints c) - 1" by linarith
    with False assms show ?thesis
      by (auto simp: update_desired_speed_fl_def nearest_idx_fl_def last_conv_nth Let_def
          split: list.splits)
  qed
qed

lemma update_controls_fl_empty:
  "waypoints c = [] \<Longrightarrow> update_controls_fl ops c = Inl IndexError"
  by (simp add: update_controls_fl_def update_desired_speed_fl_empty)

lemma update_controls_fl_cold:
  assumes "waypoints c \<noteq> []" and "\<not> start_control_loop c"
  shows "update_controls_fl ops c =
     Inr (c\<lparr>desired_speed := wp_v (waypoints c ! nearest_idx_fl ops c),
            vars := advance_fl ops (current_speed c)
                      (wp_v (waypoints c ! nearest_idx_fl ops c)) (vars c)\<rparr>)"
  using assms
  by (simp add: update_controls_fl_def update_desired_speed_fl_nonempty Let_def
      create_var_v_previous_def create_var_v_diff_previous_def create_var_step_def
      advance_fl_def accumulated_speed_error_def step_count_def
      split: option.splits)

lemma update_controls_fl_warm:
  assumes "waypoints c \<noteq> []" and "start_control_loop c"
  shows "update_controls_fl ops c =
     (let v_d = wp_v (waypoints c ! nearest_idx_fl ops c);
          w = waypoints c ! min (step_count (vars c) div 3) (length (waypoints c) - 1)
      in Inr (c\<lparr>desired_speed := v_d,
            set_throttle_val := fmax_fmin (longitudinal_throttle_fl ops v_d (current_speed c)
                 (previous_speed (vars c)) (accumulated_speed_error (vars c))) 1 0,
            set_steer_val := fmax_fmin
                 (fmul ops (fdiv ops (fdiv ops 180 70) (np_pi ops))
                    (lateral_steer_fl ops (current_x c) (current_y c)
                       (current_yaw c) v_d w (step_count (vars c)))) 1 (- 1),
            set_brake_val := fmax_fmin 0 1 0,
            vars := advance_fl ops (current_speed c) v_d (vars c)\<rparr>))"
  using assms
  by (simp add: update_controls_fl_def update_desired_speed_fl_nonempty Let_def
      lookahead_waypoint_nonempty set_throttle_def set_steer_fl_def set_brake_def
      create_var_v_previous_def create_var_v_diff_previous_def create_var_step_def
      advance_fl_def accumulated_speed_error_def step_count_def previous_speed_def
      split: option.splits)

lemma exact_ops_fields:
  "flit exact_ops = (\<lambda>x. x)" "np_pi exact_ops = pi"
  "fadd exact_ops = (\<lambda>a b. a + b)" "fsub exact_ops = (\<lambda>a b. a - b)"
  "fmul exact_ops = (\<lambda>a b. a * b)" "fdiv exact_ops = (\<lambda>a b. a / b)"
  "fsin exact_ops = sin" "fcos exact_ops = cos" "farctan exact_ops = arctan"
  "fatan2 exact_ops = atan2" "fnorm exact_ops = (\<lambda>a b. Some (linalg_norm2 a b))"
  by (simp_all add: exact_ops_def)

lemma nearest_scan_exact:
  "nearest_scan_fl exact_ops cx cy ws i acc = nearest_scan cx cy ws i acc"
proof (induction ws arbitrary: i acc)
  case Nil
  then show ?case by simp
next
  case (Cons w ws)
  obtain mi md where acc: "acc = (mi, md)" by (cases acc)
  show ?case
    by (cases md) (simp_all add: acc Cons.IH exact_ops_fields Let_def)
qed

lemma update_desired_speed_exact: "update_desired_speed_fl exact_ops c = update_desired_speed c"
  by (simp add: update_desired_speed_fl_def update_desired_speed_def nearest_scan_exact)

lemma longitudinal_throttle_exact:
  "longitudinal_throttle_fl exact_ops v_d v p a = longitudinal_throttle v_d v p a"
  by (simp add: longitudinal_throttle_fl_def longitudinal_throttle_def exact_ops_fields Let_def)

lemma lateral_steer_exact:
  "lateral_steer_fl exact_ops x y yaw v_d w st = lateral_steer x y yaw v_d w st"
  by (simp add: lateral_steer_fl_def lateral_steer_def exact_ops_fields Let_def)

lemma set_steer_exact: "set_steer_fl exact_ops a c = set_steer a c"
  by (simp add: set_steer_fl_def set_steer_def exact_ops_fields conv_rad_to_steer_def Let_def)

lemma nearest_idx_exact: "nearest_idx_fl exact_ops c = nearest_idx c"
  by (simp add: nearest_idx_fl_def nearest_idx_def nearest_scan_exact)

lemma advance_exact: "advance_fl exact_ops v v_d u = advance v v_d u"
  by (simp add: advance_fl_def advance_def exact_ops_fields add.commute)

lemma update_controls_exact: "update_controls_fl exact_ops c = update_controls c"
proof (cases "waypoints c = []")
  case True
  then show ?thesis by (simp add: update_controls_fl_empty update_controls_empty)
next
  case ne: False
  show ?thesis
  proof (cases "start_control_loop c")
    case True
    with ne show ?thesis
      by (simp add: update_controls_fl_warm update_controls_warm nearest_idx_exact
          advance_exact longitudinal_throttle_exact lateral_steer_exact exact_ops_fields
          conv_rad_to_steer_def Let_def)
  next
    case False
    with ne show ?thesis
      by (simp add: update_controls_fl_cold update_controls_cold nearest_idx_exact advance_exact)
  qed
qed

section \<open>The lateral controller in floating-point arithmetic\<close>

lemma lateral_steer_fl_spec:
  assumes "0 \<le> flit ops 0.3"
  shows "lateral_steer_fl ops x y yaw v_d w st =
           spec_steer_angle_fl ops x y yaw v_d (wp_x w) (wp_y w) st"
proof -
  have c: "(if a > flit ops 0.3 then flit ops 0.3
            else if a < - flit ops 0.3 then - flit ops 0.3 else a) =
           clamp (- flit ops 0.3) (flit ops 0.3) a" for a
    using assms by (simp add: clamp_def)
  have v: "(if v_d < 10 then 10 else v_d) = max v_d 10"
    by (simp add: max_def)
  show ?thesis
    unfolding lateral_steer_fl_def spec_steer_angle_fl_def spec_alpha_fl_def
      spec_processed_yaw_fl_def Let_def c v
    by simp
qed

lemma spec_steer_angle_fl_startup:
  assumes "0 \<le> flit ops 0.3" and "st < 100"
  shows "spec_steer_angle_fl ops x y yaw v_d x_L y_L st = 0"
  using assms by (simp add: spec_steer_angle_fl_def clamp_def Let_def)

lemma update_controls_fl_steer:
  assumes "start_control_loop c" and "waypoints c \<noteq> []"
  shows "\<exists>c'. update_controls_fl ops c = Inr c' \<and>
           desired_speed c' = wp_v (waypoints c ! nearest_idx_fl ops c) \<and>
           set_steer_val c' =
             set_steer_val (set_steer_fl ops
               (lateral_steer_fl ops (current_x c) (current_y c) (current_yaw c) (desired_speed c')
                 (waypoints c ! spec_lookahead_index (step_count (vars c)) (waypoints c))
                 (step_count (vars c))) c)"
  using assms
  by (simp add: update_controls_fl_warm Let_def lookahead_index_div set_steer_fl_def)

lemma update_controls_fl_desired_speed:
  assumes "waypoints c \<noteq> []"
  shows "\<exists>c'. update_controls_fl ops c = Inr c' \<and>
     desired_speed c' = wp_v (waypoints c ! nearest_idx_fl ops c)"
proof (cases "start_control_loop c")
  case True
  with assms show ?thesis by (simp add: update_controls_fl_warm Let_def)
next
  case False
  with assms show ?thesis by (simp add: update_controls_fl_cold)
qed

lemma spec_steer_angle_exact:
  "spec_steer_angle_fl exact_ops x y yaw v_d x_L y_L st = spec_steer_angle x y yaw v_d x_L y_L st"
  by (simp add: spec_steer_angle_fl_def spec_steer_angle_def spec_alpha_fl_def spec_alpha_def
      spec_processed_yaw_fl_def spec_processed_yaw_def exact_ops_fields Let_def)

lemma round_half_even_near:
  assumes "\<bar>r - of_int m\<bar> < 1 / 2"
  shows "round_half_even r = m"
proof (cases "of_int m \<le> r")
  case True
  with assms have "\<lfloor>r\<rfloor> = m" by (intro floor_unique) linarith+
  with assms True show ?thesis by (simp add: round_half_even_def Let_def)
next
  case False
  from False assms have b: "of_int m - 1 \<le> r" "r < of_int m" "1 / 2 < r - (of_int m - 1)"
    by linarith+
  have f: "\<lfloor>r\<rfloor> = m - 1"
    by (rule floor_unique) (use b in simp_all)
  from b(3) have "1 / 2 < r - of_int (m - 1)" by simp
  with f show ?thesis by (simp add: round_half_even_def Let_def)
qed

lemma round_double_eqI:
  assumes "0 < x" and "2 powr (of_int e) \<le> x" and "x < 2 powr (of_int e + 1)"
    and "\<bar>x / 2 powr (of_int e - 52) - of_int m\<bar> < 1 / 2"
    and "y = of_int m * 2 powr (of_int e - 52)"
  shows "round_double x = y"
proof -
  from assms(1-3) have "\<lfloor>log 2 \<bar>x\<bar>\<rfloor> = e"
    by (simp add: floor_log_eq_powr_iff)
  moreover from assms(4) have "round_half_even (x / 2 powr (of_int e - 52)) = m"
    by (rule round_half_even_near)
  ultimately show ?thesis using assms(1,5)
    by (simp add: round_double_def Let_def)
qed

lemma round_double_values:
  "round_double 5 = 5" "round_double 3 = 3" "round_double 4 = 4"
  "round_double 9 = 9" "round_double 16 = 16" "round_double 25 = 25"
  "round_double (1 / 2 ^ 30) = 1 / 2 ^ 30"
  "round_double (1 / 2 ^ 60) = 1 / 2 ^ 60"
  "round_double (25 + 1 / 2 ^ 60) = 25"
proof -
  show "round_double 5 = 5"
    by (rule round_double_eqI[where e = 2 and m = "5 * 2 ^ 50"]) (simp_all add: powr_neg_numeral)
  show "round_double 3 = 3"
    by (rule round_double_eqI[where e = 1 and m = "3 * 2 ^ 51"]) (simp_all add: powr_neg_numeral)
  show "round_double 4 = 4"
    by (rule round_double_eqI[where e = 2 and m = "2 ^ 52"]) (simp_all add: powr_neg_numeral)
  show "round_double 9 = 9"
    by (rule round_double_eqI[where e = 3 and m = "9 * 2 ^ 49"]) (simp_all add: powr_neg_numeral)
  show "round_double 16 = 16"
    by (rule round_double_eqI[where e = 4 and m = "2 ^ 52"]) (simp_all add: powr_neg_numeral)
  show "round_double 25 = 25"
    by (rule round_double_eqI[where e = 4 and m = "25 * 2 ^ 48"]) (simp_all add: powr_neg_numeral)
  show "round_double (1 / 2 ^ 30) = 1 / 2 ^ 30"
    by (rule round_double_eqI[where e = "- 30" and m = "2 ^ 52"]) (simp_all add: powr_neg_numeral)
  show "round_double (1 / 2 ^ 60) = 1 / 2 ^ 60"
    by (rule round_double_eqI[where e = "- 60" and m = "2 ^ 52"]) (simp_all add: powr_neg_numeral)
  show "round_double (25 + 1 / 2 ^ 60) = 25"
    by (rule round_double_eqI[where e = 4 and m = "25 * 2 ^ 48"]) (simp_all add: powr_neg_numeral)
qed

lemma round_double_literals:
  "round_double (3 / 10) = 5404319552844595 / 2 ^ 54"
  "round_double (1 / 20) = 7205759403792794 / 2 ^ 57"
proof -
  show "round_double (3 / 10) = 5404319552844595 / 2 ^ 54"
    by (rule round_double_eqI[where e = "- 2" and m = 5404319552844595])
      (simp_all add: powr_neg_numeral)
  show "round_double (1 / 20) = 7205759403792794 / 2 ^ 57"
    by (rule round_double_eqI[where e = "- 5" and m = 7205759403792794])
      (simp_all add: powr_neg_numeral)
qed

lemma rounded_ops_fields:
  "flit rounded_ops = round_double" "np_pi rounded_ops = double_pi"
  "fadd rounded_ops = (\<lambda>a b. round_double (a + b))"
  "fsub rounded_ops = (\<lambda>a b. round_double (a - b))"
  "fmul rounded_ops = (\<lambda>a b. round_double (a * b))"
  "fdiv rounded_ops = (\<lambda>a b. round_double (a / b))"
  "fnorm rounded_ops = double_norm"
  by (simp_all add: rounded_ops_def)

lemma rounded_ops_literal_nonneg: "0 \<le> flit rounded_ops 0.3"
  by (simp add: rounded_ops_fields round_double_literals)

lemma round_double_zero: "round_double 0 = 0"
  by (simp add: round_double_def)

text \<open>
  At the heading \<open>limit_yaw\<close> the rounded difference \<open>-yaw - np.pi / 2\<close> is
  0.05000000000000004, not below the double of 0.05, so the program leaves it as it is
  where exact arithmetic with pi would give a value just below 0.05 and snap it to 0.
\<close>

lemma limit_yaw_not_snapped:
  "spec_processed_yaw_fl rounded_ops limit_yaw = 7205759403792800 / 2 ^ 57"
proof -
  have h: "round_double (double_pi / 2) = 7074237752028440 / 2 ^ 52"
    by (rule round_double_eqI[where e = 0 and m = 7074237752028440])
      (simp_all add: double_pi_def powr_neg_numeral)
  have p: "round_double (- limit_yaw - 7074237752028440 / 2 ^ 52) = 7205759403792800 / 2 ^ 57"
    by (rule round_double_eqI[where e = "- 5" and m = 7205759403792800])
      (simp_all add: limit_yaw_def powr_neg_numeral)
  have c: "\<not> \<bar>7205759403792800 / 2 ^ 57 :: real\<bar> < 7205759403792794 / 2 ^ 57"
    by simp
  have l: "round_double 0.05 = 7205759403792794 / 2 ^ 57"
    using round_double_literals(2) by simp
  show ?thesis
    unfolding spec_processed_yaw_fl_def rounded_ops_fields Let_def h p l
    using c by (simp only: if_False)
qed

text \<open>
  Claim C5. The steering angle that \<open>update_controls\<close> produces in the Warm state is
  the result of the specification's pipeline, each step computed as the program
  computes it: the processed yaw \<open>-yaw - pi/2\<close> snapped to 0 below 0.05;
  \<open>alpha = atan2 (x_L - x) (y_L - y) - processed_yaw\<close> with the arguments in that
  order; the velocity \<open>max v_d 10.0\<close>; \<open>atan (2*3.0*sin alpha / (0.8*velocity))\<close>;
  0 while the step counter is below 100, whatever the pose and the waypoints; the clamp
  to [-0.3, 0.3]; the snap to 0 below 0.05. This holds for every choice of the rounded
  operations that gives the literal 0.3 a value that is not negative. On a Warm
  controller with a non-empty path \<open>update_controls\<close> returns and the steer it stores is
  \<open>set_steer\<close> of that angle for the lookahead waypoint, and \<open>set_steer\<close> of 0 while
  the step counter is below 100.
\<close>

theorem C5_steering_pipeline:
  assumes "0 \<le> flit ops 0.3"
  shows
  "(\<forall>x y yaw v_d w st.
      lateral_steer_fl ops x y yaw v_d w st =
        spec_steer_angle_fl ops x y yaw v_d (wp_x w) (wp_y w) st) \<and>
   (\<forall>x y yaw v_d x_L y_L st. st < 100 \<longrightarrow> spec_steer_angle_fl ops x y yaw v_d x_L y_L st = 0) \<and>
   (start_control_loop c \<and> waypoints c \<noteq> [] \<longrightarrow>
      (\<exists>c'. update_controls_fl ops c = Inr c' \<and>
            set_steer_val c' =
              set_steer_val (set_steer_fl ops
                (spec_steer_angle_fl ops (current_x c) (current_y c) (current_yaw c)
                   (desired_speed c')
                   (wp_x (waypoints c ! spec_lookahead_index (step_count (vars c)) (waypoints c)))
                   (wp_y (waypoints c ! spec_lookahead_index (step_count (vars c)) (waypoints c)))
                   (step_count (vars c))) c) \<and>
            (step_count (vars c) < 100 \<longrightarrow>
               set_steer_val c' = set_steer_val (set_steer_fl ops 0 c))))"
proof -
  have "\<exists>c'. update_controls_fl ops c = Inr c' \<and>
            set_steer_val c' =
              set_steer_val (set_steer_fl ops
                (spec_steer_angle_fl ops (current_x c) (current_y c) (current_yaw c)
                   (desired_speed c')
                   (wp_x (waypoints c ! spec_lookahead_index (step_count (vars c)) (waypoints c)))
                   (wp_y (waypoints c ! spec_lookahead_index (step_count (vars c)) (waypoints c)))
                   (step_count (vars c))) c) \<and>
            (step_count (vars c) < 100 \<longrightarrow>
               set_steer_val c' = set_steer_val (set_steer_fl ops 0 c))"
    if h: "start_control_loop c" "waypoints c \<noteq> []"
  proof -
    from update_controls_fl_steer[OF h, of ops] obtain c' where
      u: "update_controls_fl ops c = Inr c'" and
      s: "set_steer_val c' =
             set_steer_val (set_steer_fl ops
               (lateral_steer_fl ops (current_x c) (current_y c) (current_yaw c) (desired_speed c')
                 (waypoints c ! spec_lookahead_index (step_count (vars c)) (waypoints c))
                 (step_count (vars c))) c)"
      by blast
    note s' = s[unfolded lateral_steer_fl_spec[OF assms]]
    moreover from s' have "set_steer_val c' = set_steer_val (set_steer_fl ops 0 c)"
      if "step_count (vars c) < 100"
      using that by (simp add: spec_steer_angle_fl_startup[OF assms])
    ultimately show ?thesis using u by blast
  qed
  then show ?thesis
    by (simp add: lateral_steer_fl_spec[OF assms] spec_steer_angle_fl_startup[OF assms])
qed

theorem C5_steering_pipeline_witness:
  "0 \<le> flit rounded_ops 0.3 \<and> start_control_loop demo_warm \<and> waypoints demo_warm \<noteq> [] \<and>
   step_count (vars demo_warm) < 100 \<and>
   (\<exists>c'. update_controls_fl rounded_ops demo_warm = Inr c' \<and> set_steer_val c' = 0) \<and>
   0 \<le> flit exact_ops 0.3 \<and> start_control_loop demo_steer \<and> waypoints demo_steer \<noteq> [] \<and>
   (\<exists>c'. update_controls_fl exact_ops demo_steer = Inr c' \<and>
         set_steer_val c' = conv_rad_to_steer * 0.3) \<and>
   lateral_steer_fl exact_ops 9 0 (- (pi / 2)) 8 (20, 0, 3) 300 = 0.3"
proof -
  have hw: "start_control_loop demo_warm" "waypoints demo_warm \<noteq> []"
    by (simp_all add: demo_warm_fields demo_path_nonempty)
  have sw: "step_count (vars demo_warm) < 100"
    by (simp add: demo_warm_fields step_count_def CUtils_init_def)
  have z: "set_steer_val (set_steer_fl rounded_ops 0 demo_warm) = 0"
    by (simp add: set_steer_fl_def rounded_ops_fields round_double_zero fmax_fmin_def)
  from C5_steering_pipeline[OF rounded_ops_literal_nonneg, of demo_warm] hw sw z
  have 1: "\<exists>c'. update_controls_fl rounded_ops demo_warm = Inr c' \<and> set_steer_val c' = 0"
    by auto
  have x: "0 \<le> flit exact_ops 0.3" by (simp add: exact_ops_fields)
  have hs: "start_control_loop demo_steer" "waypoints demo_steer \<noteq> []"
    by (simp_all add: demo_steer_fields demo_path_nonempty)
  note t = C5_steering_pipeline[OF x, of demo_steer]
  from t hs obtain c' where u: "update_controls_fl exact_ops demo_steer = Inr c'"
    and s: "set_steer_val c' =
              set_steer_val (set_steer_fl exact_ops
                (spec_steer_angle_fl exact_ops (current_x demo_steer) (current_y demo_steer)
                   (current_yaw demo_steer) (desired_speed c')
                   (wp_x (waypoints demo_steer !
                      spec_lookahead_index (step_count (vars demo_steer)) (waypoints demo_steer)))
                   (wp_y (waypoints demo_steer !
                      spec_lookahead_index (step_count (vars demo_steer)) (waypoints demo_steer)))
                   (step_count (vars demo_steer))) demo_steer)"
    by blast
  from update_controls_fl_desired_speed[OF hs(2), of exact_ops] u
  have d: "desired_speed c' = 8"
    by (auto simp: nearest_idx_exact demo_steer_fields demo_steer_nearest demo_path_speed)
  have c: "set_steer_val (set_steer 0.3 demo_steer) = conv_rad_to_steer * 0.3"
    using set_steer_unclamped[of "0.3"] by (simp add: set_steer_def Let_def)
  from s have "set_steer_val c' = conv_rad_to_steer * 0.3"
    by (simp add: d demo_steer_fields demo_lookahead demo_path_last spec_steer_angle_exact
        set_steer_exact demo_steer_angle c)
  with u have 2: "\<exists>c'. update_controls_fl exact_ops demo_steer = Inr c' \<and>
      set_steer_val c' = conv_rad_to_steer * 0.3" by blast
  from t have "lateral_steer_fl exact_ops 9 0 (- (pi / 2)) 8 (20, 0, 3) 300 =
      spec_steer_angle_fl exact_ops 9 0 (- (pi / 2)) 8 (wp_x (20, 0, 3)) (wp_y (20, 0, 3)) 300"
    by blast
  then have 3: "lateral_steer_fl exact_ops 9 0 (- (pi / 2)) 8 (20, 0, 3) 300 = 0.3"
    by (simp add: wp_x_def wp_y_def spec_steer_angle_exact demo_steer_angle)
  from rounded_ops_literal_nonneg hw sw 1 x hs 2 3 show ?thesis by blast
qed

section \<open>The nearest waypoint in floating-point arithmetic\<close>

lemma scan_inv_fl_step:
  assumes inv: "scan_inv_fl ops cx cy wps i (mi, md)" and i: "i < length wps"
  shows "scan_inv_fl ops cx cy wps (Suc i)
           (if fl_less (computed_distance ops cx cy (wps ! i)) md
            then (i, computed_distance ops cx cy (wps ! i)) else (mi, md))"
proof -
  let ?d = "\<lambda>k. computed_distance ops cx cy (wps ! k)"
  from inv consider (start) "i = 0" "mi = 0" "md = None"
    | (run) "mi < i" "md = ?d mi" "\<forall>j < i. \<not> fl_less (?d j) (?d mi)"
        "\<forall>j < mi. fl_less (?d mi) (?d j)"
    by (auto simp: scan_inv_fl_def)
  then show ?thesis
  proof cases
    case start
    show ?thesis
    proof (cases "fl_less (?d i) md")
      case True
      with start show ?thesis by (simp add: scan_inv_fl_def fl_less_irrefl)
    next
      case False
      with start have "?d 0 = None" by (cases "?d 0") simp_all
      with False start show ?thesis by (simp add: scan_inv_fl_def fl_less_irrefl)
    qed
  next
    case run
    show ?thesis
    proof (cases "fl_less (?d i) md")
      case True
      then have lt: "fl_less (?d i) (?d mi)" using run(2) by simp
      have a: "\<not> fl_less (?d j) (?d i)" if "j < Suc i" for j
      proof (cases "j = i")
        case True
        then show ?thesis by (simp add: fl_less_irrefl)
      next
        case False
        with that have "j < i" by simp
        with run(3) have "\<not> fl_less (?d j) (?d mi)" by simp
        with lt show ?thesis using fl_less_trans by blast
      qed
      have b: "fl_less (?d i) (?d j)" if "j < i" for j
        using run(3) that lt fl_less_below by blast
      from True a b show ?thesis by (simp add: scan_inv_fl_def)
    next
      case False
      then have "\<not> fl_less (?d i) (?d mi)" using run(2) by simp
      with run(3) have "\<forall>j < Suc i. \<not> fl_less (?d j) (?d mi)"
        by (auto simp: less_Suc_eq)
      with False run show ?thesis by (simp add: scan_inv_fl_def)
    qed
  qed
qed

lemma nearest_scan_fl_inv:
  "scan_inv_fl ops cx cy wps i acc \<Longrightarrow> i \<le> length wps \<Longrightarrow> drop i wps = ws \<Longrightarrow>
   scan_inv_fl ops cx cy wps (length wps) (nearest_scan_fl ops cx cy ws i acc)"
proof (induction ws arbitrary: i acc)
  case Nil
  then have "i = length wps" by simp
  with Nil.prems(1) show ?case by simp
next
  case (Cons w ws)
  obtain mi md where acc: "acc = (mi, md)" by (cases acc)
  from Cons.prems(3) have i: "i < length wps"
    by (metis drop_all list.distinct(1) not_le)
  from Cons.prems(3) i have w: "w = wps ! i" and ws: "drop (Suc i) wps = ws"
    by (metis Cons_nth_drop_Suc list.inject)+
  have "scan_inv_fl ops cx cy wps (Suc i)
           (if fl_less (computed_distance ops cx cy (wps ! i)) md
            then (i, computed_distance ops cx cy (wps ! i)) else (mi, md))"
    using Cons.prems(1) i unfolding acc by (rule scan_inv_fl_step)
  from Cons.IH[OF this _ ws] i show ?case
    by (simp add: acc w computed_distance_def Let_def split: if_splits)
qed

lemma nearest_idx_fl_first_nearest:
  assumes "waypoints c \<noteq> []"
  shows "first_nearest_fl ops (current_x c) (current_y c) (waypoints c) (nearest_idx_fl ops c)"
proof -
  have "scan_inv_fl ops (current_x c) (current_y c) (waypoints c) 0 (0, None)"
    by (simp add: scan_inv_fl_def)
  then have "scan_inv_fl ops (current_x c) (current_y c) (waypoints c) (length (waypoints c))
       (nearest_scan_fl ops (current_x c) (current_y c) (waypoints c) 0 (0, None))"
    by (rule nearest_scan_fl_inv) simp_all
  with assms show ?thesis
    by (auto simp: scan_inv_fl_def first_nearest_fl_def nearest_idx_fl_def)
qed

lemma first_nearest_fl_unique:
  "first_nearest_fl ops cx cy wps i \<Longrightarrow> first_nearest_fl ops cx cy wps j \<Longrightarrow> i = j"
  unfolding first_nearest_fl_def
  by (metis linorder_neqE_nat)

lemma first_nearest_fl_euclidean:
  assumes "order_preserved ops cx cy wps" and "first_nearest_fl ops cx cy wps i"
  shows "first_nearest cx cy wps i"
  using assms unfolding order_preserved_def first_nearest_fl_def first_nearest_def
  by (metis less_trans not_less)

lemma computed_distance_exact:
  "computed_distance exact_ops cx cy w = Some (euclidean_distance cx cy w)"
  by (simp add: computed_distance_def exact_ops_fields linalg_norm2_euclidean)

lemma order_preserved_exact: "order_preserved exact_ops cx cy wps"
  by (simp add: order_preserved_def computed_distance_exact)

lemma double_norm_close: "double_norm 5 (1 / 2 ^ 30) = Some 5"
proof -
  have a: "5 * 5 = (25 :: real)" by simp
  have b: "(1 / 2 ^ 30) * (1 / 2 ^ 30) = (1 / 2 ^ 60 :: real)" by simp
  have c: "sqrt 25 = 5" using real_sqrt_abs[of 5] by simp
  show ?thesis
    unfolding double_norm_def a b round_double_values c ..
qed

lemma double_norm_far: "double_norm 3 4 = Some 5"
proof -
  have a: "3 * 3 = (9 :: real)" "4 * 4 = (16 :: real)" "9 + 16 = (25 :: real)" by simp_all
  have c: "sqrt 25 = 5" using real_sqrt_abs[of 5] by simp
  show ?thesis
    unfolding double_norm_def a round_double_values c ..
qed

lemma close_path_distances:
  "computed_distance rounded_ops 0 0 (5, 1 / 2 ^ 30, 5) = Some 5"
  "computed_distance rounded_ops 0 0 (3, 4, 8) = Some 5"
proof -
  have z: "5 - 0 = (5 :: real)" "1 / 2 ^ 30 - 0 = (1 / 2 ^ 30 :: real)"
    "3 - 0 = (3 :: real)" "4 - 0 = (4 :: real)" by simp_all
  show "computed_distance rounded_ops 0 0 (5, 1 / 2 ^ 30, 5) = Some 5"
    unfolding computed_distance_def rounded_ops_fields wp_x_def wp_y_def fst_conv snd_conv z
      round_double_values double_norm_close ..
  show "computed_distance rounded_ops 0 0 (3, 4, 8) = Some 5"
    unfolding computed_distance_def rounded_ops_fields wp_x_def wp_y_def fst_conv snd_conv z
      round_double_values double_norm_far ..
qed

lemma close_path_nearest: "nearest_idx_fl rounded_ops (Controller2D_init close_path) = 0"
proof -
  have i: "current_x (Controller2D_init close_path) = 0"
    "current_y (Controller2D_init close_path) = 0"
    "waypoints (Controller2D_init close_path) = close_path"
    by (simp_all add: Controller2D_init_def)
  have d: "fnorm rounded_ops (fsub rounded_ops (wp_x (5, 1 / 2 ^ 30, 5)) 0)
             (fsub rounded_ops (wp_y (5, 1 / 2 ^ 30, 5)) 0) = Some 5"
    "fnorm rounded_ops (fsub rounded_ops (wp_x (3, 4, 8)) 0)
             (fsub rounded_ops (wp_y (3, 4, 8)) 0) = Some 5"
    using close_path_distances by (simp_all only: computed_distance_def)
  have "nearest_scan_fl rounded_ops 0 0 close_path 0 (0, None) = (0, Some 5)"
    unfolding close_path_def
    by (simp only: nearest_scan_fl.simps Let_def d fl_less.simps if_True if_False
        less_irrefl)
  then show ?thesis
    unfolding nearest_idx_fl_def i by simp
qed

text \<open>
  Claim C6, as stated, makes the desired speed the target speed of the waypoint at
  minimum Euclidean distance. On \<open>close_path\<close> from the origin the second waypoint
  (3, 4) is strictly the nearer one, at distance 5 against \<open>sqrt (25 + 2^-60)\<close>, and
  its target speed is 8. In doubles both norms are 5.0, the comparison \<open>5.0 < 5.0\<close>
  fails, and the program keeps the first waypoint and its target speed 5.
\<close>

theorem C6_nearest_waypoint_counterexample:
  "euclidean_distance 0 0 (3, 4, 8) < euclidean_distance 0 0 (5, 1 / 2 ^ 30, 5) \<and>
   update_desired_speed_fl rounded_ops (Controller2D_init close_path) =
     Inr ((Controller2D_init close_path)\<lparr>desired_speed := 5\<rparr>)"
proof -
  have "(3 - 0)\<^sup>2 + (4 - 0)\<^sup>2 < (5 - 0)\<^sup>2 + (1 / 2 ^ 30 - 0 :: real)\<^sup>2"
    by simp
  then have "euclidean_distance 0 0 (3, 4, 8) < euclidean_distance 0 0 (5, 1 / 2 ^ 30, 5)"
    unfolding euclidean_distance_def wp_x_def wp_y_def fst_conv snd_conv
    by (simp only: real_sqrt_less_iff)
  moreover have "waypoints (Controller2D_init close_path) \<noteq> []"
    by (simp add: Controller2D_init_def close_path_def)
  then have "update_desired_speed_fl rounded_ops (Controller2D_init close_path) =
     Inr ((Controller2D_init close_path)\<lparr>desired_speed := 5\<rparr>)"
    by (simp add: update_desired_speed_fl_nonempty close_path_nearest)
      (simp add: Controller2D_init_def close_path_def wp_v_def)
  ultimately show ?thesis by blast
qed

text \<open>
  Claim C6, amended. On a non-empty path the scan of \<open>update_desired_speed\<close> ends at
  the one index that is the earliest among those whose computed distance (the double
  that \<open>np.linalg.norm\<close> returns for the rounded differences) is least, for every
  choice of the rounded operations: computed distances that are equal tie, and the
  earliest index wins. The desired speed it stores, and the one \<open>update_controls\<close>
  leaves, is that waypoint's target speed; when the index is the last one, it is the
  last waypoint's target speed. Whenever rounding keeps the order of the distances of
  the path, this index is the earliest one at minimum Euclidean distance.
\<close>

theorem C6_nearest_computed_distance:
  assumes "waypoints c \<noteq> []"
  shows "\<exists>i. first_nearest_fl ops (current_x c) (current_y c) (waypoints c) i \<and>
             (\<forall>j. first_nearest_fl ops (current_x c) (current_y c) (waypoints c) j \<longrightarrow> j = i) \<and>
             update_desired_speed_fl ops c = Inr (c\<lparr>desired_speed := wp_v (waypoints c ! i)\<rparr>) \<and>
             (\<exists>c'. update_controls_fl ops c = Inr c' \<and>
                   desired_speed c' = wp_v (waypoints c ! i)) \<and>
             (i = length (waypoints c) - 1 \<longrightarrow>
                update_desired_speed_fl ops c =
                  Inr (c\<lparr>desired_speed := wp_v (last (waypoints c))\<rparr>)) \<and>
             (order_preserved ops (current_x c) (current_y c) (waypoints c) \<longrightarrow>
                first_nearest (current_x c) (current_y c) (waypoints c) i)"
proof -
  let ?i = "nearest_idx_fl ops c"
  have f: "first_nearest_fl ops (current_x c) (current_y c) (waypoints c) ?i"
    using assms by (rule nearest_idx_fl_first_nearest)
  have u: "\<forall>j. first_nearest_fl ops (current_x c) (current_y c) (waypoints c) j \<longrightarrow> j = ?i"
    using f first_nearest_fl_unique by blast
  have d: "update_desired_speed_fl ops c =
             Inr (c\<lparr>desired_speed := wp_v (waypoints c ! ?i)\<rparr>)"
    using assms by (rule update_desired_speed_fl_nonempty)
  have e: "\<exists>c'. update_controls_fl ops c = Inr c' \<and> desired_speed c' = wp_v (waypoints c ! ?i)"
    using assms by (rule update_controls_fl_desired_speed)
  have l: "update_desired_speed_fl ops c = Inr (c\<lparr>desired_speed := wp_v (last (waypoints c))\<rparr>)"
    if "?i = length (waypoints c) - 1"
    using d that assms by (simp add: last_conv_nth)
  have o: "first_nearest (current_x c) (current_y c) (waypoints c) ?i"
    if "order_preserved ops (current_x c) (current_y c) (waypoints c)"
    using that f by (rule first_nearest_fl_euclidean)
  from f u d e l o show ?thesis by blast
qed

theorem C6_nearest_computed_distance_witness:
  "waypoints (Controller2D_init close_path) \<noteq> [] \<and>
   computed_distance rounded_ops 0 0 (close_path ! 0) =
     computed_distance rounded_ops 0 0 (close_path ! 1) \<and>
   first_nearest_fl rounded_ops 0 0 close_path 0 \<and>
   update_desired_speed_fl rounded_ops (Controller2D_init close_path) =
     Inr ((Controller2D_init close_path)\<lparr>desired_speed := 5\<rparr>) \<and>
   (\<exists>c'. update_controls_fl rounded_ops (Controller2D_init close_path) = Inr c' \<and>
         desired_speed c' = 5) \<and>
   waypoints demo_tie \<noteq> [] \<and> order_preserved exact_ops 9 0 tie_path \<and>
   first_nearest 9 0 tie_path 1 \<and>
   update_desired_speed_fl exact_ops demo_tie = Inr (demo_tie\<lparr>desired_speed := 8\<rparr>)"
proof -
  let ?c = "Controller2D_init close_path"
  have f: "current_x ?c = 0" "current_y ?c = 0" "waypoints ?c = close_path"
    by (simp_all add: Controller2D_init_def)
  have ne: "waypoints ?c \<noteq> []" by (simp add: Controller2D_init_def close_path_def)
  have eq: "computed_distance rounded_ops 0 0 (close_path ! 0) =
     computed_distance rounded_ops 0 0 (close_path ! 1)"
  proof -
    have n: "close_path ! 0 = (5, 1 / 2 ^ 30, 5)" "close_path ! 1 = (3, 4, 8)"
      by (simp_all add: close_path_def)
    show ?thesis unfolding n close_path_distances ..
  qed
  from C6_nearest_computed_distance[OF ne, of rounded_ops] obtain i where
    fi: "first_nearest_fl rounded_ops 0 0 close_path i" and
    d: "update_desired_speed_fl rounded_ops ?c =
          Inr (?c\<lparr>desired_speed := wp_v (close_path ! i)\<rparr>)" and
    e: "\<exists>c'. update_controls_fl rounded_ops ?c = Inr c' \<and>
          desired_speed c' = wp_v (close_path ! i)"
    unfolding f by blast
  from nearest_idx_fl_first_nearest[OF ne, of rounded_ops]
  have "first_nearest_fl rounded_ops 0 0 close_path 0"
    unfolding f close_path_nearest .
  with fi have i: "i = 0" by (rule first_nearest_fl_unique)
  have v: "wp_v (close_path ! 0) = 5" by (simp add: close_path_def wp_v_def)
  note r = fi[unfolded i] d[unfolded i v] e[unfolded i v]
  have ne2: "waypoints demo_tie \<noteq> []" by (simp add: demo_tie_fields tie_path_def)
  from C6_nearest_computed_distance[OF ne2, of exact_ops] obtain k where
    d2: "update_desired_speed_fl exact_ops demo_tie =
          Inr (demo_tie\<lparr>desired_speed := wp_v (tie_path ! k)\<rparr>)" and
    o2: "order_preserved exact_ops 9 0 tie_path \<longrightarrow> first_nearest 9 0 tie_path k"
    unfolding demo_tie_fields by blast
  from o2 order_preserved_exact have "first_nearest 9 0 tie_path k" by blast
  with tie_first_nearest have k: "k = 1" by (rule first_nearest_unique[symmetric])
  have v2: "wp_v (tie_path ! 1) = 8" by (simp add: tie_path_def wp_v_def)
  note r2 = d2[unfolded k v2]
  from ne eq r ne2 order_preserved_exact tie_first_nearest r2 show ?thesis by blast
qed

end
